theory Spec2Isabelle
  imports Complex_Main "HOL-Library.Word"
begin

section \<open>Values of the host language\<close>

text \<open>
  The SDK reads untyped JSON: \<open>callSwapEndpoint\<close> returns \<open>any\<close>, and every field is
  read without a schema. A value is therefore one of the JSON values, \<open>JUndefined\<close> (what
  reading an absent property gives), or \<open>JFunction\<close> (a built-in method found on a
  prototype). Numbers are IEEE doubles in the source; their type \<open>'n\<close> is left open, and
  what the program needs of them (\<open>Number\<close>, the string form, which of them are falsy) is
  supplied by the runtime below. An object is the list of its own properties, each name
  once, as \<open>JSON.parse\<close> builds it.
\<close>

datatype 'n json =
    JUndefined
  | JNull
  | JBool bool
  | JNum 'n
  | JStr string
  | JArr "'n json list"
  | JObj "(string \<times> 'n json) list"
  | JFunction

text \<open>
  What the source can throw: \<open>new Error(message)\<close>, the engine's \<open>TypeError\<close> (a property
  read on \<open>undefined\<close> or \<open>null\<close>, a call of something that is no function), the
  \<open>SyntaxError\<close> of a body that is not JSON, and the class of \<open>errors.ts\<close>.
\<close>

datatype error =
    Error string
  | TypeError
  | SyntaxError
  | TooManyAccountsLockError string

type_synonym bytes = "8 word list"

text \<open>\<open>await\<close> and sequencing: the first thrown error ends the call.\<close>

definition bindE :: "error + 'a \<Rightarrow> ('a \<Rightarrow> error + 'b) \<Rightarrow> error + 'b" where
  "bindE m f = (case m of Inl e \<Rightarrow> Inl e | Inr x \<Rightarrow> f x)"

text \<open>\<open>Array.prototype.map\<close> with a callback that may throw: elements in order.\<close>

fun mapE :: "('a \<Rightarrow> error + 'b) \<Rightarrow> 'a list \<Rightarrow> error + 'b list" where
  "mapE f [] = Inr []"
| "mapE f (x # xs) = bindE (f x) (\<lambda>y. bindE (mapE f xs) (\<lambda>ys. Inr (y # ys)))"

text \<open>
  \<open>v.map(f)\<close> on an untyped value: only an array has \<open>map\<close>; on \<open>undefined\<close> and
  \<open>null\<close> the property read throws, on anything else the call of \<open>undefined\<close> does.
\<close>

definition js_map :: "('n json \<Rightarrow> error + 'b) \<Rightarrow> 'n json \<Rightarrow> error + 'b list" where
  "js_map f v = (case v of JArr xs \<Rightarrow> mapE f xs | _ \<Rightarrow> Inl TypeError)"

text \<open>
  \<open>v.k\<close>. Of the property names this program reads, only \<open>keys\<close> exists on a prototype
  (\<open>Array.prototype.keys\<close>); every other name read on an array, string, number or boolean
  gives \<open>undefined\<close>. The program never reads a property of a function.
\<close>

fun get_prop :: "'n json \<Rightarrow> string \<Rightarrow> error + 'n json" where
  "get_prop JUndefined k = Inl TypeError"
| "get_prop JNull k = Inl TypeError"
| "get_prop (JObj kvs) k = Inr (case map_of kvs k of Some v \<Rightarrow> v | None \<Rightarrow> JUndefined)"
| "get_prop (JArr xs) k = Inr (if k = ''keys'' then JFunction else JUndefined)"
| "get_prop v k = Inr JUndefined"

text \<open>The falsy values: \<open>undefined\<close>, \<open>null\<close>, \<open>false\<close>, \<open>0\<close>, \<open>NaN\<close>, \<open>""\<close>.\<close>

fun falsy :: "('n \<Rightarrow> bool) \<Rightarrow> 'n json \<Rightarrow> bool" where
  "falsy nf JUndefined = True"
| "falsy nf JNull = True"
| "falsy nf (JBool b) = (\<not> b)"
| "falsy nf (JNum n) = nf n"
| "falsy nf (JStr s) = (s = [])"
| "falsy nf v = False"

text \<open>\<open>v || []\<close>\<close>

definition or_empty :: "('n \<Rightarrow> bool) \<Rightarrow> 'n json \<Rightarrow> 'n json" where
  "or_empty nf v = (if falsy nf v then JArr [] else v)"

text \<open>\<open>String.prototype.includes\<close>: \<open>t\<close> occurs in \<open>s\<close> as a contiguous run.\<close>

fun str_includes :: "string \<Rightarrow> string \<Rightarrow> bool" where
  "str_includes [] t = (t = [])"
| "str_includes (c # cs) t = (take (length t) (c # cs) = t \<or> str_includes cs t)"

text \<open>
  \<open>e.toString()\<close> for a truthy \<open>e\<close>. A string is itself; a plain object inherits
  \<open>Object.prototype.toString\<close> unless it has an own \<open>toString\<close> property (no JSON value
  is callable, so the call throws); an array joins its elements with commas, \<open>null\<close> and
  \<open>undefined\<close> elements as the empty string.
\<close>

fun join_comma :: "string list \<Rightarrow> string" where
  "join_comma [] = []"
| "join_comma [s] = s"
| "join_comma (s # t # ss) = s @ '','' @ join_comma (t # ss)"

fun js_toString :: "('n \<Rightarrow> string) \<Rightarrow> 'n json \<Rightarrow> error + string" where
  "js_toString ns JUndefined = Inl TypeError"
| "js_toString ns JNull = Inl TypeError"
| "js_toString ns (JBool b) = Inr (if b then ''true'' else ''false'')"
| "js_toString ns (JNum n) = Inr (ns n)"
| "js_toString ns (JStr s) = Inr s"
| "js_toString ns (JArr xs) =
     (let rs = map (\<lambda>x. if x = JUndefined \<or> x = JNull then Inr [] else js_toString ns x) xs
      in if list_ex isl rs then Inl TypeError else Inr (join_comma (map projr rs)))"
| "js_toString ns (JObj kvs) =
     (if map_of kvs ''toString'' = None then Inr ''[object Object]'' else Inl TypeError)"
| "js_toString ns JFunction = Inr ''function keys() { [native code] }''"

section \<open>The runtime the SDK is linked against\<close>

text \<open>
  \<open>fetch\<close>, the JSON codec, \<open>Buffer\<close>, \<open>bs58\<close> and \<open>@solana/web3.js\<close> are not code of
  this repository. Their types (\<open>'pk\<close> for \<open>PublicKey\<close>, \<open>'kp\<close> for \<open>Keypair\<close>, \<open>'tx\<close>
  for \<open>VersionedTransaction\<close>) and operations are parameters; an operation that can throw
  returns \<open>error + _\<close>. A \<open>Response\<close> is what the SDK reads of it: \<open>ok\<close>, \<open>statusText\<close>
  and the outcome of \<open>json()\<close>.
\<close>

record http_request =
  url :: string
  http_method :: string
  headers :: "(string \<times> string) list"
  body :: "string option"

record 'n response =
  ok :: bool
  statusText :: string
  json :: "error + 'n json"

record ('n, 'pk, 'kp, 'tx) runtime =
  fetch :: "http_request \<Rightarrow> error + 'n response"
  JSON_stringify :: "'n json \<Rightarrow> string"
  Number :: "'n json \<Rightarrow> error + 'n"
  number_toString :: "'n \<Rightarrow> string"
  number_falsy :: "'n \<Rightarrow> bool"
  Buffer_from :: "'n json \<Rightarrow> string option \<Rightarrow> error + bytes"
  base58_decode :: "'n json \<Rightarrow> error + bytes"
  PublicKey :: "'n json \<Rightarrow> error + 'pk"
  toBase58 :: "'pk \<Rightarrow> string"
  Keypair_fromSecretKey :: "bytes \<Rightarrow> error + 'kp"
  VersionedTransaction_deserialize :: "bytes \<Rightarrow> error + 'tx"
  sign :: "'tx \<Rightarrow> 'kp list \<Rightarrow> error + 'tx"

section \<open>SwapSDK.ts: the data\<close>

record RouteOptions =
  reduceToTwoHops :: bool

record ('n, 'pk) SwapRequestParams =
  publicKey :: 'pk
  tokenA :: 'pk
  tokenB :: 'pk
  amountIn :: 'n
  dexId :: string
  options :: "RouteOptions option"

text \<open>
  One element of \<open>routePlan\<close> in a result. \<open>dexId\<close> is copied from the wire as it is, and
  so are \<open>isSigner\<close>, \<open>isWritable\<close>, the signers of \<open>swapIx\<close> and the fields of a token
  other than its address: the declared types are not checked at run time.
\<close>

record ('n, 'pk) RoutePlanStep =
  tokenA :: 'pk
  tokenB :: 'pk
  dexId :: "'n json"

record ('n, 'pk, 'kp, 'tx) SwapTxResult =
  transaction :: 'tx
  amountOut :: 'n
  amountOutUi :: 'n
  routePlan :: "('n, 'pk) RoutePlanStep list"
  lookupAccounts :: "'pk list"
  signers :: "'kp list"

record ('n, 'pk) AccountMeta =
  pubkey :: 'pk
  isSigner :: "'n json"
  isWritable :: "'n json"

record ('n, 'pk) TransactionInstruction =
  keys :: "('n, 'pk) AccountMeta list"
  programId :: 'pk
  data :: bytes

record ('n, 'pk) InstructionGroup =
  instructions :: "('n, 'pk) TransactionInstruction list"
  cleanupInstructions :: "('n, 'pk) TransactionInstruction list"
  signers :: "'n json"

record ('n, 'pk) SwapIxResult =
  instructionGroups :: "('n, 'pk) InstructionGroup list"
  amountOut :: 'n
  amountOutUi :: 'n
  routePlan :: "('n, 'pk) RoutePlanStep list"
  lookupAccounts :: "'pk list"
  signers :: "'n json"

record ('n, 'pk) Token =
  name :: "'n json"
  symbol :: "'n json"
  address :: 'pk
  chainId :: "'n json"
  decimals :: "'n json"
  logoURL :: "'n json"

record SwapSDK =
  baseUrl :: string

definition BASE_URL :: string where
  "BASE_URL = ''http://170.75.162.89:3333/''"

text \<open>\<open>constructor(baseUrl?)\<close>: \<open>this.baseUrl = baseUrl || BASE_URL\<close>\<close>

definition new_SwapSDK :: "string option \<Rightarrow> SwapSDK" where
  "new_SwapSDK b =
     \<lparr>baseUrl = (case b of None \<Rightarrow> BASE_URL | Some u \<Rightarrow> if u = [] then BASE_URL else u)\<rparr>"

section \<open>SwapSDK.ts: the methods\<close>

definition api_error :: "'n response \<Rightarrow> error" where
  "api_error response = Error (''API Error: '' @ statusText response)"

definition callSwapEndpoint ::
  "('n, 'pk, 'kp, 'tx) runtime \<Rightarrow> SwapSDK \<Rightarrow> ('n, 'pk) SwapRequestParams \<Rightarrow> error + 'n json" where
  "callSwapEndpoint rt sdk params =
     (let body' = JObj
        [(''publicKey'', JStr (toBase58 rt (publicKey params))),
         (''tokenA'', JStr (toBase58 rt (SwapRequestParams.tokenA params))),
         (''tokenB'', JStr (toBase58 rt (SwapRequestParams.tokenB params))),
         (''amountIn'', JStr (number_toString rt (amountIn params))),
         (''dexId'', JStr (SwapRequestParams.dexId params)),
         (''options'', case options params of
             None \<Rightarrow> JUndefined
           | Some opts \<Rightarrow> JObj [(''reduceToTwoHops'', JBool (reduceToTwoHops opts))])]
      in bindE (fetch rt \<lparr>url = baseUrl sdk @ ''/bestSwapRoute'', http_method = ''POST'',
                          headers = [(''Content-Type'', ''application/json'')],
                          body = Some (JSON_stringify rt body')\<rparr>)
           (\<lambda>response. if \<not> ok response then Inl (api_error response) else json response))"

text \<open>
  The first two statements of \<open>swapTx\<close>: \<open>Buffer.from(data.transaction, "base64")\<close> and
  \<open>VersionedTransaction.deserialize(txBuffer)\<close>.
\<close>

definition deserializeTransaction ::
  "('n, 'pk, 'kp, 'tx) runtime \<Rightarrow> 'n json \<Rightarrow> error + 'tx" where
  "deserializeTransaction rt data' =
     bindE (get_prop data' ''transaction'') (\<lambda>t.
     bindE (Buffer_from rt t (Some ''base64'')) (\<lambda>txBuffer.
       VersionedTransaction_deserialize rt txBuffer))"

text \<open>
  \<open>(data.lookUpAccounts || []).map((addr) => new PublicKey(addr))\<close>, the same in \<open>swapTx\<close>
  and \<open>swapIx\<close>.
\<close>

definition convertLookupAccounts ::
  "('n, 'pk, 'kp, 'tx) runtime \<Rightarrow> 'n json \<Rightarrow> error + 'pk list" where
  "convertLookupAccounts rt data' =
     bindE (get_prop data' ''lookUpAccounts'') (\<lambda>la.
       js_map (PublicKey rt) (or_empty (number_falsy rt) la))"

text \<open>
  The callback of \<open>routePlan.map\<close>, and \<open>(data.routePlan || []).map(...)\<close>; the same in
  \<open>swapTx\<close> and \<open>swapIx\<close>.
\<close>

definition convertRoutePlanStep ::
  "('n, 'pk, 'kp, 'tx) runtime \<Rightarrow> 'n json \<Rightarrow> error + ('n, 'pk) RoutePlanStep" where
  "convertRoutePlanStep rt rp =
     bindE (get_prop rp ''tokenA'') (\<lambda>a. bindE (PublicKey rt a) (\<lambda>ta.
     bindE (get_prop rp ''tokenB'') (\<lambda>b. bindE (PublicKey rt b) (\<lambda>tb.
     bindE (get_prop rp ''dexId'') (\<lambda>d.
       Inr \<lparr>tokenA = ta, tokenB = tb, dexId = d\<rparr>)))))"

definition convertRoutePlan ::
  "('n, 'pk, 'kp, 'tx) runtime \<Rightarrow> 'n json \<Rightarrow> error + ('n, 'pk) RoutePlanStep list" where
  "convertRoutePlan rt data' =
     bindE (get_prop data' ''routePlan'') (\<lambda>rp.
       js_map (convertRoutePlanStep rt) (or_empty (number_falsy rt) rp))"

text \<open>The callback of \<open>signers.map\<close>: \<open>(s) => Keypair.fromSecretKey(base58.decode(s))\<close>.\<close>

definition convertSigner :: "('n, 'pk, 'kp, 'tx) runtime \<Rightarrow> 'n json \<Rightarrow> error + 'kp" where
  "convertSigner rt s = bindE (base58_decode rt s) (Keypair_fromSecretKey rt)"

definition swapTx ::
  "('n, 'pk, 'kp, 'tx) runtime \<Rightarrow> SwapSDK \<Rightarrow> ('n, 'pk) SwapRequestParams
     \<Rightarrow> error + ('n, 'pk, 'kp, 'tx) SwapTxResult" where
  "swapTx rt sdk params =
     bindE (callSwapEndpoint rt sdk params) (\<lambda>data'.
     bindE (deserializeTransaction rt data') (\<lambda>tx.
     bindE (convertLookupAccounts rt data') (\<lambda>las.
     bindE (convertRoutePlan rt data') (\<lambda>rps.
     bindE (get_prop data' ''signers'') (\<lambda>ss.
     bindE (js_map (convertSigner rt) ss) (\<lambda>kps.
     bindE (sign rt tx kps) (\<lambda>signed.
     bindE (get_prop data' ''amountOut'') (\<lambda>ao. bindE (Number rt ao) (\<lambda>out.
     bindE (get_prop data' ''amountOutUi'') (\<lambda>aou. bindE (Number rt aou) (\<lambda>ui.
       Inr \<lparr>transaction = signed,
            SwapTxResult.amountOut = out,
            SwapTxResult.amountOutUi = ui,
            SwapTxResult.routePlan = rps,
            SwapTxResult.lookupAccounts = las,
            SwapTxResult.signers = kps\<rparr>)))))))))))"

text \<open>The callback of \<open>keys.map\<close> in \<open>convertAPIInstruction\<close>.\<close>

definition convertAccountMeta ::
  "('n, 'pk, 'kp, 'tx) runtime \<Rightarrow> 'n json \<Rightarrow> error + ('n, 'pk) AccountMeta" where
  "convertAccountMeta rt key =
     bindE (get_prop key ''pubkey'') (\<lambda>p. bindE (PublicKey rt p) (\<lambda>pk.
     bindE (get_prop key ''isSigner'') (\<lambda>sg.
     bindE (get_prop key ''isWritable'') (\<lambda>wr.
       Inr \<lparr>pubkey = pk, isSigner = sg, isWritable = wr\<rparr>))))"

text \<open>
  \<open>new TransactionInstruction(opts)\<close> stores the three fields; \<open>Buffer.from(apiInst.data)\<close>
  is called without an encoding.
\<close>

definition convertAPIInstruction ::
  "('n, 'pk, 'kp, 'tx) runtime \<Rightarrow> 'n json \<Rightarrow> error + ('n, 'pk) TransactionInstruction" where
  "convertAPIInstruction rt apiInst =
     bindE (get_prop apiInst ''keys'') (\<lambda>ks.
     bindE (js_map (convertAccountMeta rt) (or_empty (number_falsy rt) ks)) (\<lambda>metas.
     bindE (get_prop apiInst ''programId'') (\<lambda>p. bindE (PublicKey rt p) (\<lambda>pid.
     bindE (get_prop apiInst ''data'') (\<lambda>d. bindE (Buffer_from rt d None) (\<lambda>buf.
       Inr \<lparr>keys = metas, programId = pid, data = buf\<rparr>))))))"

text \<open>The callback of \<open>inXs.map\<close> in \<open>swapIx\<close>.\<close>

definition convertInstructionGroup ::
  "('n, 'pk, 'kp, 'tx) runtime \<Rightarrow> 'n json \<Rightarrow> error + ('n, 'pk) InstructionGroup" where
  "convertInstructionGroup rt group' =
     bindE (get_prop group' ''instructions'') (\<lambda>ins.
     bindE (js_map (convertAPIInstruction rt) (or_empty (number_falsy rt) ins)) (\<lambda>insts.
     bindE (get_prop group' ''cleanupInstructions'') (\<lambda>cls.
     bindE (js_map (convertAPIInstruction rt) (or_empty (number_falsy rt) cls)) (\<lambda>cs.
     bindE (get_prop group' ''signers'') (\<lambda>sg.
       Inr \<lparr>instructions = insts, cleanupInstructions = cs,
            InstructionGroup.signers = or_empty (number_falsy rt) sg\<rparr>)))))"

definition swapIx ::
  "('n, 'pk, 'kp, 'tx) runtime \<Rightarrow> SwapSDK \<Rightarrow> ('n, 'pk) SwapRequestParams
     \<Rightarrow> error + ('n, 'pk) SwapIxResult" where
  "swapIx rt sdk params =
     bindE (callSwapEndpoint rt sdk params) (\<lambda>data'.
     bindE (convertLookupAccounts rt data') (\<lambda>las.
     bindE (convertRoutePlan rt data') (\<lambda>rps.
     bindE (get_prop data' ''inXs'') (\<lambda>gs.
     bindE (js_map (convertInstructionGroup rt) (or_empty (number_falsy rt) gs)) (\<lambda>groups.
     bindE (get_prop data' ''amountOut'') (\<lambda>ao. bindE (Number rt ao) (\<lambda>out.
     bindE (get_prop data' ''amountOutUi'') (\<lambda>aou. bindE (Number rt aou) (\<lambda>ui.
     bindE (get_prop data' ''signers'') (\<lambda>ss.
       Inr \<lparr>instructionGroups = groups,
            SwapIxResult.amountOut = out,
            SwapIxResult.amountOutUi = ui,
            SwapIxResult.routePlan = rps,
            SwapIxResult.lookupAccounts = las,
            SwapIxResult.signers = ss\<rparr>))))))))))"

text \<open>The callback of \<open>data.map\<close> in \<open>tokenList\<close>.\<close>

definition convertToken ::
  "('n, 'pk, 'kp, 'tx) runtime \<Rightarrow> 'n json \<Rightarrow> error + ('n, 'pk) Token" where
  "convertToken rt token =
     bindE (get_prop token ''name'') (\<lambda>nm.
     bindE (get_prop token ''symbol'') (\<lambda>sy.
     bindE (get_prop token ''address'') (\<lambda>a. bindE (PublicKey rt a) (\<lambda>pk.
     bindE (get_prop token ''chainId'') (\<lambda>ci.
     bindE (get_prop token ''decimals'') (\<lambda>dc.
     bindE (get_prop token ''logoURL'') (\<lambda>lg.
       Inr \<lparr>name = nm, symbol = sy, address = pk, chainId = ci, decimals = dc,
            logoURL = lg\<rparr>)))))))"

definition tokenList ::
  "('n, 'pk, 'kp, 'tx) runtime \<Rightarrow> SwapSDK \<Rightarrow> error + ('n, 'pk) Token list" where
  "tokenList rt sdk =
     bindE (fetch rt \<lparr>url = baseUrl sdk @ ''/tokenList'', http_method = ''GET'',
                      headers = [], body = None\<rparr>)
       (\<lambda>response. if \<not> ok response then Inl (api_error response)
          else bindE (json response) (js_map (convertToken rt)))"

definition tokenPrice ::
  "('n, 'pk, 'kp, 'tx) runtime \<Rightarrow> SwapSDK \<Rightarrow> 'pk \<Rightarrow> error + 'n" where
  "tokenPrice rt sdk tokenAddress =
     bindE (fetch rt \<lparr>url = baseUrl sdk @ ''/tokenPrice/'' @ toBase58 rt tokenAddress,
                      http_method = ''GET'', headers = [], body = None\<rparr>)
       (\<lambda>response. if \<not> ok response then Inl (api_error response)
          else bindE (json response) (\<lambda>data'.
               bindE (get_prop data' ''price'') (Number rt)))"

section \<open>errors.ts and the simulation\<close>

definition handleSimulationError :: "('n \<Rightarrow> string) \<Rightarrow> 'n json \<Rightarrow> error + unit" where
  "handleSimulationError ns e =
     bindE (js_toString ns e) (\<lambda>s.
       if str_includes s ''TooManyAccountLocks''
       then Inl (TooManyAccountsLockError
         ''Too many account locks: consider using the option reduceToTwoHops in the options when getting the routes'')
       else Inr ())"

text \<open>
  \<open>connection.simulateTransaction(transaction, config)\<close> is the node's answer, an object
  with the fields \<open>context\<close> and \<open>value\<close>, or a thrown error; \<open>config\<close> is the fixed
  \<open>{ commitment: "confirmed" }\<close>.
\<close>

record SimulateTransactionConfig =
  commitment :: string

definition simulateTransaction ::
  "('n, 'pk, 'kp, 'tx) runtime \<Rightarrow> ('tx \<Rightarrow> SimulateTransactionConfig \<Rightarrow> error + 'n json) \<Rightarrow> 'tx
     \<Rightarrow> error + 'n json" where
  "simulateTransaction rt connection tx =
     (let config = \<lparr>commitment = ''confirmed''\<rparr>
      in bindE (connection tx config) (\<lambda>res.
         bindE (get_prop res ''value'') (\<lambda>v.
         bindE (get_prop v ''err'') (\<lambda>e.
         bindE (if falsy (number_falsy rt) e then Inr ()
                else handleSimulationError (number_toString rt) e) (\<lambda>_.
           Inr v)))))"

section \<open>Vocabulary of the statements\<close>

text \<open>
  The raw answer is read through two total functions: \<open>field v k\<close> is \<open>v.k\<close> where the
  read does not throw, \<open>items v\<close> the elements of \<open>v\<close> where \<open>v\<close> is an array (an absent list
  has none). A string is a standard encoding of a key when the runtime parses it and
  prints the parsed key as the same string.
\<close>

definition field :: "'n json \<Rightarrow> string \<Rightarrow> 'n json" where
  "field v k = (case get_prop v k of Inr x \<Rightarrow> x | Inl e \<Rightarrow> JUndefined)"

fun items :: "'n json \<Rightarrow> 'n json list" where
  "items (JArr xs) = xs"
| "items v = []"

definition standard_encoding :: "('n, 'pk, 'kp, 'tx) runtime \<Rightarrow> string \<Rightarrow> bool" where
  "standard_encoding rt s =
     (case PublicKey rt (JStr s) of Inr pk \<Rightarrow> toBase58 rt pk = s | Inl e \<Rightarrow> False)"

text \<open>
  The address-like fields of an answer and the keys of a result, both listed in the same
  order: the lookup accounts and the two tokens of every hop, for
  \<open>swapIx\<close> also the program id and the account keys of every instruction and cleanup
  instruction, for \<open>tokenList\<close> the address of every token.
\<close>

definition route_addresses :: "'n json \<Rightarrow> 'n json list" where
  "route_addresses d =
     concat (map (\<lambda>rp. [field rp ''tokenA'', field rp ''tokenB'']) (items (field d ''routePlan'')))"

definition instruction_addresses :: "'n json \<Rightarrow> 'n json list" where
  "instruction_addresses i =
     field i ''programId'' # map (\<lambda>key. field key ''pubkey'') (items (field i ''keys''))"

definition group_addresses :: "'n json \<Rightarrow> 'n json list" where
  "group_addresses g =
     concat (map instruction_addresses
       (items (field g ''instructions'') @ items (field g ''cleanupInstructions'')))"

definition swapTx_addresses :: "'n json \<Rightarrow> 'n json list" where
  "swapTx_addresses d = items (field d ''lookUpAccounts'') @ route_addresses d"

definition swapIx_addresses :: "'n json \<Rightarrow> 'n json list" where
  "swapIx_addresses d =
     swapTx_addresses d @ concat (map group_addresses (items (field d ''inXs'')))"

definition tokenList_addresses :: "'n json \<Rightarrow> 'n json list" where
  "tokenList_addresses d = map (\<lambda>t. field t ''address'') (items d)"

definition route_keys :: "('n, 'pk) RoutePlanStep list \<Rightarrow> 'pk list" where
  "route_keys rps = concat (map (\<lambda>s. [RoutePlanStep.tokenA s, RoutePlanStep.tokenB s]) rps)"

definition instruction_keys :: "('n, 'pk) TransactionInstruction \<Rightarrow> 'pk list" where
  "instruction_keys y = programId y # map pubkey (keys y)"

definition group_keys :: "('n, 'pk) InstructionGroup \<Rightarrow> 'pk list" where
  "group_keys g = concat (map instruction_keys (instructions g @ cleanupInstructions g))"

definition swapTx_keys :: "('n, 'pk, 'kp, 'tx) SwapTxResult \<Rightarrow> 'pk list" where
  "swapTx_keys r = SwapTxResult.lookupAccounts r @ route_keys (SwapTxResult.routePlan r)"

definition swapIx_keys :: "('n, 'pk) SwapIxResult \<Rightarrow> 'pk list" where
  "swapIx_keys r =
     SwapIxResult.lookupAccounts r @ route_keys (SwapIxResult.routePlan r)
       @ concat (map group_keys (instructionGroups r))"

text \<open>
  The shape of an instruction group, raw and converted: the number of account keys of
  each instruction, of each cleanup instruction, and the signers.
\<close>

definition raw_group_shape :: "'n json \<Rightarrow> nat list \<times> nat list \<times> 'n json list" where
  "raw_group_shape g =
     (map (\<lambda>i. length (items (field i ''keys''))) (items (field g ''instructions'')),
      map (\<lambda>i. length (items (field i ''keys''))) (items (field g ''cleanupInstructions'')),
      items (field g ''signers''))"

definition group_shape :: "('n, 'pk) InstructionGroup \<Rightarrow> nat list \<times> nat list \<times> 'n json list" where
  "group_shape gr =
     (map (\<lambda>y. length (keys y)) (instructions gr),
      map (\<lambda>y. length (keys y)) (cleanupInstructions gr),
      items (InstructionGroup.signers gr))"

text \<open>
  A converted value against the raw one, field by field. An account key has the parsed
  \<open>pubkey\<close> and the raw \<open>isSigner\<close> and \<open>isWritable\<close>; an instruction has the raw keys
  converted one for one, the parsed \<open>programId\<close> and the bytes \<open>Buffer.from\<close> makes of the
  raw \<open>data\<close>; a group has the raw instructions and cleanup instructions converted one
  for one and the raw signers (none where they are absent); a hop has the two parsed
  tokens and the raw \<open>dexId\<close>.
\<close>

definition retyped_key ::
  "('n, 'pk, 'kp, 'tx) runtime \<Rightarrow> 'n json \<Rightarrow> ('n, 'pk) AccountMeta \<Rightarrow> bool" where
  "retyped_key rt raw m =
     (PublicKey rt (field raw ''pubkey'') = Inr (pubkey m)
      \<and> isSigner m = field raw ''isSigner''
      \<and> isWritable m = field raw ''isWritable'')"

definition retyped_instruction ::
  "('n, 'pk, 'kp, 'tx) runtime \<Rightarrow> 'n json \<Rightarrow> ('n, 'pk) TransactionInstruction \<Rightarrow> bool" where
  "retyped_instruction rt raw y =
     (list_all2 (retyped_key rt) (items (field raw ''keys'')) (keys y)
      \<and> PublicKey rt (field raw ''programId'') = Inr (programId y)
      \<and> Buffer_from rt (field raw ''data'') None = Inr (data y))"

definition retyped_group ::
  "('n, 'pk, 'kp, 'tx) runtime \<Rightarrow> 'n json \<Rightarrow> ('n, 'pk) InstructionGroup \<Rightarrow> bool" where
  "retyped_group rt raw gr =
     (list_all2 (retyped_instruction rt) (items (field raw ''instructions'')) (instructions gr)
      \<and> list_all2 (retyped_instruction rt) (items (field raw ''cleanupInstructions''))
            (cleanupInstructions gr)
      \<and> InstructionGroup.signers gr = or_empty (number_falsy rt) (field raw ''signers''))"

definition retyped_hop ::
  "('n, 'pk, 'kp, 'tx) runtime \<Rightarrow> 'n json \<Rightarrow> ('n, 'pk) RoutePlanStep \<Rightarrow> bool" where
  "retyped_hop rt raw s =
     (PublicKey rt (field raw ''tokenA'') = Inr (RoutePlanStep.tokenA s)
      \<and> PublicKey rt (field raw ''tokenB'') = Inr (RoutePlanStep.tokenB s)
      \<and> RoutePlanStep.dexId s = field raw ''dexId'')"

section \<open>A test double of the runtime\<close>

text \<open>
  The concrete instances below run the SDK against a stub server, as the repository's
  users would in a test. The double keeps what the SDK relies on: \<open>bs58\<close> is base-x over
  the Bitcoin alphabet (leading \<open>1\<close>s are zero bytes, any other character outside the
  alphabet throws), a \<open>PublicKey\<close> is the 32 bytes its base58 text decodes to,
  \<open>Buffer.from(s, "base64")\<close> reads the characters up to the padding and \<open>Buffer.from(s)\<close>
  gives the character codes (only strings are converted), a \<open>Keypair\<close> is a 64-byte
  secret key, and a transaction records the keypairs \<open>sign\<close> was given, in order.
  Numbers are exact rationals with \<open>None\<close> for \<open>NaN\<close>. The signature scheme and the
  transaction's wire format are not modelled, and the stub server gives the same answer
  to every request.
\<close>

definition ALPHABET :: string where
  "ALPHABET = ''123456789ABCDEFGHJKLMNPQRSTUVWXYZabcdefghijkmnopqrstuvwxyz''"

fun index_of :: "'a \<Rightarrow> 'a list \<Rightarrow> int option" where
  "index_of c [] = None"
| "index_of c (x # xs) = (if c = x then Some 0 else map_option (\<lambda>i. i + 1) (index_of c xs))"

definition from_digits :: "int \<Rightarrow> int list \<Rightarrow> int" where
  "from_digits b ds = foldl (\<lambda>a d. a * b + d) 0 ds"

function to_digits :: "int \<Rightarrow> int \<Rightarrow> int list" where
  "to_digits b n = (if n \<le> 0 \<or> b < 2 then [] else to_digits b (n div b) @ [n mod b])"
  by pat_completeness auto
termination
  by (relation "measure (\<lambda>(b, n). nat n)") (auto simp: int_div_less_self)

declare to_digits.simps [simp del]

definition bs58_decode :: "string \<Rightarrow> error + bytes" where
  "bs58_decode s =
     (let zeroes = length (takeWhile (\<lambda>c. c = CHR ''1'') s);
          ds = map (\<lambda>c. index_of c ALPHABET) (dropWhile (\<lambda>c. c = CHR ''1'') s)
      in if list_ex Option.is_none ds then Inl (Error ''Non-base58 character'')
         else Inr (replicate zeroes 0 @ map of_int (to_digits 256 (from_digits 58 (map the ds)))))"

definition bs58_encode :: "bytes \<Rightarrow> string" where
  "bs58_encode bs =
     (let zeroes = length (takeWhile (\<lambda>b. b = 0) bs);
          n = from_digits 256 (map uint (dropWhile (\<lambda>b. b = 0) bs))
      in replicate zeroes (CHR ''1'') @ map (\<lambda>d. ALPHABET ! nat d) (to_digits 58 n))"

definition B64 :: string where
  "B64 = ''ABCDEFGHIJKLMNOPQRSTUVWXYZabcdefghijklmnopqrstuvwxyz0123456789+/''"

fun b64_bytes :: "int list \<Rightarrow> int list" where
  "b64_bytes (a # b # c # d # r) =
     [a * 4 + b div 16, (b mod 16) * 16 + c div 4, (c mod 4) * 64 + d] @ b64_bytes r"
| "b64_bytes [a, b, c] = [a * 4 + b div 16, (b mod 16) * 16 + c div 4]"
| "b64_bytes [a, b] = [a * 4 + b div 16]"
| "b64_bytes r = []"

definition base64_decode :: "string \<Rightarrow> bytes" where
  "base64_decode s =
     map of_int (b64_bytes (map (\<lambda>c. the (index_of c B64))
       (takeWhile (\<lambda>c. index_of c B64 \<noteq> None) s)))"

record stub_tx =
  message :: bytes
  signed_by :: "bytes list"

fun parse_digits :: "string \<Rightarrow> int option" where
  "parse_digits [] = Some 0"
| "parse_digits (c # cs) =
     (case (index_of c ''0123456789'', parse_digits cs) of
        (Some d, Some n) \<Rightarrow> Some (d * 10 ^ length cs + n)
      | _ \<Rightarrow> None)"

text \<open>Unsigned decimal numerals \<open>ddd\<close> and \<open>ddd.ddd\<close>; any other text is \<open>NaN\<close>.\<close>

definition parse_decimal :: "string \<Rightarrow> rat option" where
  "parse_decimal s =
     (let ip = takeWhile (\<lambda>c. c \<noteq> CHR ''.'') s; fp = drop (Suc (length ip)) s
      in if ip = [] \<or> (fp = [] \<and> length ip < length s) then None
         else case (parse_digits ip, parse_digits fp) of
                (Some i, Some f) \<Rightarrow> Some (of_int i + of_int f / 10 ^ length fp)
              | _ \<Rightarrow> None)"

fun stub_Number :: "rat option json \<Rightarrow> error + rat option" where
  "stub_Number (JNum n) = Inr n"
| "stub_Number (JStr s) = Inr (if s = [] then Some 0 else parse_decimal s)"
| "stub_Number (JBool b) = Inr (Some (if b then 1 else 0))"
| "stub_Number JNull = Inr (Some 0)"
| "stub_Number (JObj kvs) = (if map_of kvs ''toString'' = None then Inr None else Inl TypeError)"
| "stub_Number v = Inr None"

text \<open>
  \<open>Number.prototype.toString\<close> for these numbers (at most 17 digits after the point) and
  \<open>JSON.stringify\<close> (properties whose value is \<open>undefined\<close> are left out).
\<close>

definition show_int :: "int \<Rightarrow> string" where
  "show_int i =
     (if i = 0 then ''0''
      else (if i < 0 then ''-'' else []) @ map (\<lambda>d. ''0123456789'' ! nat d) (to_digits 10 \<bar>i\<bar>))"

fun show_fraction :: "nat \<Rightarrow> rat \<Rightarrow> string" where
  "show_fraction 0 q = []"
| "show_fraction (Suc k) q =
     (if q = 0 then []
      else (''0123456789'' ! nat \<lfloor>q * 10\<rfloor>) # show_fraction k (q * 10 - of_int \<lfloor>q * 10\<rfloor>))"

definition stub_number_toString :: "rat option \<Rightarrow> string" where
  "stub_number_toString n =
     (case n of
        None \<Rightarrow> ''NaN''
      | Some q \<Rightarrow>
          (if q < 0 then ''-'' else []) @ show_int \<lfloor>\<bar>q\<bar>\<rfloor>
          @ (if \<bar>q\<bar> = of_int \<lfloor>\<bar>q\<bar>\<rfloor> then []
             else CHR ''.'' # show_fraction 17 (\<bar>q\<bar> - of_int \<lfloor>\<bar>q\<bar>\<rfloor>)))"

definition quote :: "string \<Rightarrow> string" where
  "quote s =
     CHR 0x22 # concat (map (\<lambda>c. if c = CHR 0x22 \<or> c = CHR 0x5C then [CHR 0x5C, c] else [c]) s)
       @ [CHR 0x22]"

fun stub_stringify :: "('n \<Rightarrow> string) \<Rightarrow> 'n json \<Rightarrow> string" where
  "stub_stringify ns JNull = ''null''"
| "stub_stringify ns (JBool b) = (if b then ''true'' else ''false'')"
| "stub_stringify ns (JNum n) = ns n"
| "stub_stringify ns (JStr s) = quote s"
| "stub_stringify ns (JArr xs) =
     ''['' @ join_comma (map (\<lambda>x. if x = JUndefined \<or> x = JFunction then ''null''
                                    else stub_stringify ns x) xs) @ '']''"
| "stub_stringify ns (JObj kvs) =
     ''{'' @ join_comma (map (\<lambda>kv. quote (fst kv) @ '':'' @ stub_stringify ns (snd kv))
                          (filter (\<lambda>kv. snd kv \<noteq> JUndefined \<and> snd kv \<noteq> JFunction) kvs)) @ ''}''"
| "stub_stringify ns v = []"

fun stub_string :: "(string \<Rightarrow> error + 'a) \<Rightarrow> 'n json \<Rightarrow> error + 'a" where
  "stub_string f (JStr s) = f s"
| "stub_string f v = Inl TypeError"

definition stub_runtime ::
  "rat option response \<Rightarrow> (rat option, bytes, bytes, stub_tx) runtime" where
  "stub_runtime response =
     \<lparr>fetch = (\<lambda>req. Inr response),
      JSON_stringify = stub_stringify stub_number_toString,
      Number = stub_Number,
      number_toString = stub_number_toString,
      number_falsy = (\<lambda>n. n = None \<or> n = Some 0),
      Buffer_from = (\<lambda>v enc.
        if enc = Some ''base64'' then stub_string (\<lambda>s. Inr (base64_decode s)) v
        else stub_string (\<lambda>s. Inr (map (\<lambda>c. of_nat (of_char c)) s)) v),
      base58_decode = stub_string bs58_decode,
      PublicKey = stub_string (\<lambda>s. bindE (bs58_decode s) (\<lambda>bs.
        if length bs = 32 then Inr bs else Inl (Error ''Invalid public key input''))),
      toBase58 = bs58_encode,
      Keypair_fromSecretKey = (\<lambda>bs.
        if length bs = 64 then Inr bs else Inl (Error ''bad secret key size'')),
      VersionedTransaction_deserialize = (\<lambda>bs. Inr \<lparr>message = bs, signed_by = []\<rparr>),
      sign = (\<lambda>tx kps. Inr (tx\<lparr>signed_by := signed_by tx @ kps\<rparr>))\<rparr>"

definition stub_ok :: "rat option json \<Rightarrow> rat option response" where
  "stub_ok v = \<lparr>ok = True, statusText = ''OK'', json = Inr v\<rparr>"

definition stub_connection ::
  "rat option json \<Rightarrow> stub_tx \<Rightarrow> SimulateTransactionConfig \<Rightarrow> error + rat option json" where
  "stub_connection e tx config =
     Inr (JObj [(''context'', JObj [(''slot'', JNum (Some 1))]),
                (''value'', JObj [(''err'', e), (''logs'', JArr [])])])"

text \<open>
  Keys for the stub server: two 64-byte secret keys (the first two test vectors of
  RFC 8032, seed followed by public key) and three token mints, each with its base58 text.
\<close>

definition secret1_text :: string where
  "secret1_text = ''49W385L4rePHy6PAaQUovbD2aacgN4HsKXSMeUzRg4fmwXszN91JuMFrQRj3vMDpZuRF3ZknQBuRBoWQJEfXstMw''"

definition secret1_bytes :: bytes where
  "secret1_bytes =
     [157, 97, 177, 157, 239, 253, 90, 96, 186, 132, 74, 244, 146, 236, 44, 196, 68,
      73, 197, 105, 123, 50, 105, 25, 112, 59, 172, 3, 28, 174, 127, 96, 215, 90, 152,
      1, 130, 177, 10, 183, 213, 75, 254, 211, 201, 100, 7, 58, 14, 225, 114, 243,
      218, 166, 35, 37, 175, 2, 26, 104, 247, 7, 81, 26]"

definition secret2_text :: string where
  "secret2_text = ''2Y4QjyJVZf9tTmTPP1SY9ACpFYTo7brW9iCQ8SunQht5yQ2r1U9KsVv5aMsCGnzj3NR8KG9P3NY7FKBiYbbTJ2no''"

definition secret2_bytes :: bytes where
  "secret2_bytes =
     [76, 205, 8, 155, 40, 255, 150, 218, 157, 182, 195, 70, 236, 17, 78, 15, 91, 138,
      49, 159, 53, 171, 166, 36, 218, 140, 246, 237, 79, 184, 166, 251, 61, 64, 23,
      195, 232, 67, 137, 90, 146, 183, 10, 167, 77, 27, 126, 188, 156, 152, 44, 207,
      46, 196, 150, 140, 192, 205, 85, 241, 42, 244, 102, 12]"

definition mintA_text :: string where
  "mintA_text = ''GU7NS9xCwgNPiAdJ69iusFrRfawjDDPjeMBovhV1d4kn''"

definition mintA_bytes :: bytes where
  "mintA_bytes =
     [229, 209, 48, 20, 72, 18, 75, 218, 251, 254, 226, 62, 229, 176, 212, 12, 81,
      237, 102, 48, 137, 43, 3, 159, 163, 195, 20, 154, 19, 93, 44, 247]"

definition mintB_text :: string where
  "mintB_text = ''CEBP3CqAbW4zdZA57H2wfaSG1QNdzQ72GiQEbQXyW9Tm''"

definition mintB_bytes :: bytes where
  "mintB_bytes =
     [166, 208, 215, 231, 62, 190, 68, 152, 195, 158, 203, 61, 38, 202, 170, 98, 201,
      106, 105, 104, 95, 223, 77, 234, 51, 105, 76, 149, 14, 203, 205, 184]"

definition wsol_text :: string where
  "wsol_text = ''So11111111111111111111111111111111111111112''"

definition wsol_bytes :: bytes where
  "wsol_bytes =
     [6, 155, 136, 87, 254, 171, 129, 132, 251, 104, 127, 99, 70, 24, 192, 53, 218,
      196, 57, 220, 26, 235, 59, 85, 152, 160, 240, 0, 0, 0, 0, 1]"

text \<open>The first secret key in base64, as the comments of \<open>SwapSDK.ts\<close> describe a signer.\<close>

definition secret1_base64 :: string where
  "secret1_base64 =
     ''nWGxne/9WmC6hEr0kuwsxERJxWl7MmkZcDusAxyuf2DXWpgBgrEKt9VL/tPJZAc6DuFy89qmIyWvAhpo9wdRGg==''"

text \<open>The request of the README's example, with the keys as their 32 bytes.\<close>

definition stub_params :: "(rat option, bytes) SwapRequestParams" where
  "stub_params =
     \<lparr>publicKey = replicate 32 7,
      SwapRequestParams.tokenA = mintA_bytes,
      SwapRequestParams.tokenB = mintB_bytes,
      amountIn = Some 10,
      SwapRequestParams.dexId = ''INVARIANT'',
      options = Some \<lparr>reduceToTwoHops = False\<rparr>\<rparr>"

text \<open>
  A successful answer of \<open>/bestSwapRoute\<close>: a transaction of four bytes, one hop, one
  lookup account and the two signers.
\<close>

definition stub_swap_fields :: "(string \<times> rat option json) list" where
  "stub_swap_fields =
     [(''transaction'', JStr ''AQIDBA==''),
      (''amountOut'', JStr ''500000''),
      (''amountOutUi'', JStr ''0.5''),
      (''routePlan'', JArr [JObj [(''tokenA'', JStr mintA_text), (''tokenB'', JStr mintB_text),
                                  (''dexId'', JStr ''INVARIANT'')]]),
      (''lookUpAccounts'', JArr [JStr wsol_text]),
      (''signers'', JArr [JStr secret1_text, JStr secret2_text])]"

text \<open>The same answer with the field \<open>k\<close> left out.\<close>

definition stub_swap_without :: "string \<Rightarrow> rat option json" where
  "stub_swap_without k = JObj (filter (\<lambda>kv. fst kv \<noteq> k) stub_swap_fields)"

text \<open>The same answer with the field \<open>k\<close> set to \<open>v\<close>.\<close>

definition stub_swap_with :: "string \<Rightarrow> rat option json \<Rightarrow> rat option json" where
  "stub_swap_with k v = JObj ((k, v) # filter (\<lambda>kv. fst kv \<noteq> k) stub_swap_fields)"

text \<open>
  An answer of \<open>/bestSwapRoute\<close> with two instruction groups: the first has one
  instruction with two account keys (the second neither signer nor writable), one
  cleanup instruction without keys and one signer, the second has neither instructions
  nor signers.
\<close>

definition stub_groups :: "rat option json list" where
  "stub_groups =
     [JObj [(''instructions'', JArr
               [JObj [(''keys'', JArr
                         [JObj [(''pubkey'', JStr mintA_text), (''isSigner'', JBool True),
                                (''isWritable'', JBool True)],
                          JObj [(''pubkey'', JStr mintB_text), (''isSigner'', JBool False),
                                (''isWritable'', JBool False)]]),
                      (''programId'', JStr wsol_text),
                      (''data'', JStr ''AQ'')]]),
            (''cleanupInstructions'', JArr
               [JObj [(''programId'', JStr mintB_text), (''data'', JStr ''Ag'')]]),
            (''signers'', JArr [JStr secret1_text])],
      JObj [(''instructions'', JArr [])]]"

text \<open>An answer of \<open>/tokenList\<close> with two tokens.\<close>

definition stub_tokens :: "rat option json" where
  "stub_tokens = JArr
     [JObj [(''name'', JStr ''Wrapped SOL''), (''symbol'', JStr ''SOL''),
            (''address'', JStr wsol_text), (''chainId'', JNum (Some 101)),
            (''decimals'', JNum (Some 9)), (''logoURL'', JStr ''https://example.org/sol.png'')],
      JObj [(''name'', JStr ''Token A''), (''symbol'', JStr ''TKA''),
            (''address'', JStr mintA_text), (''chainId'', JNum (Some 101)),
            (''decimals'', JNum (Some 6)), (''logoURL'', JNull)]]"

section \<open>Sequencing, \<open>map\<close> and property reads\<close>

lemma bindE_Inr [simp]: "bindE (Inr x) f = f x"
  by (simp add: bindE_def)

lemma bindE_Inl [simp]: "bindE (Inl e) f = Inl e"
  by (simp add: bindE_def)

lemma bindE_eq_Inr: "(bindE m f = Inr y) = (\<exists>x. m = Inr x \<and> f x = Inr y)"
  by (cases m) simp_all

lemma bindE_eq_Inl: "(bindE m f = Inl e) = (m = Inl e \<or> (\<exists>x. m = Inr x \<and> f x = Inl e))"
  by (cases m) simp_all

lemma bindE_isl: "isl m \<Longrightarrow> isl (bindE m f)"
  by (cases m) simp_all

lemma not_Inr_isl: "(\<And>r. m \<noteq> Inr r) \<Longrightarrow> isl m"
  by (cases m) auto

lemma mapE_eq_Inr: "(mapE f xs = Inr ys) = (map f xs = map Inr ys)"
proof (induction xs arbitrary: ys)
  case Nil
  show ?case by auto
next
  case (Cons x xs)
  show ?case
  proof (cases ys)
    case Nil
    then show ?thesis by (simp add: bindE_eq_Inr)
  next
    case (Cons y ys')
    then show ?thesis using Cons.IH [of ys'] by (auto simp: bindE_eq_Inr)
  qed
qed

lemma mapE_length: "mapE f xs = Inr ys \<Longrightarrow> length ys = length xs"
  using map_eq_imp_length_eq [of f xs Inr ys] by (simp add: mapE_eq_Inr)

lemma mapE_nth: "mapE f xs = Inr ys \<Longrightarrow> i < length xs \<Longrightarrow> f (xs ! i) = Inr (ys ! i)"
proof -
  assume a: "mapE f xs = Inr ys" and i: "i < length xs"
  from a have m: "map f xs = map Inr ys" by (simp add: mapE_eq_Inr)
  from a have l: "length ys = length xs" by (rule mapE_length)
  have "f (xs ! i) = map f xs ! i" using i by simp
  also have "\<dots> = map Inr ys ! i" using m by simp
  also have "\<dots> = Inr (ys ! i)" using i l by simp
  finally show ?thesis .
qed

lemma mapE_fails: "x \<in> set xs \<Longrightarrow> isl (f x) \<Longrightarrow> isl (mapE f xs)"
proof (induction xs)
  case Nil
  then show ?case by simp
next
  case (Cons a xs)
  show ?case
  proof (cases "f a")
    case (Inl e)
    then show ?thesis by simp
  next
    case (Inr y)
    with Cons have "x \<in> set xs \<Longrightarrow> isl (mapE f xs)" by simp
    moreover have "x = a \<Longrightarrow> False" using Cons.prems Inr by auto
    ultimately have "isl (mapE f xs)" using Cons.prems by auto
    then show ?thesis using Inr by (cases "mapE f xs") simp_all
  qed
qed

lemma mapE_total: "(\<And>x. x \<in> set xs \<Longrightarrow> \<exists>y. f x = Inr y) \<Longrightarrow> \<exists>ys. mapE f xs = Inr ys"
proof (induction xs)
  case Nil
  show ?case by simp
next
  case (Cons a xs)
  from Cons.prems obtain y where y: "f a = Inr y" by auto
  from Cons obtain ys where "mapE f xs = Inr ys" by auto
  with y show ?case by simp
qed

lemma mapE_list_all2: "mapE f xs = Inr ys \<Longrightarrow> list_all2 (\<lambda>x y. f x = Inr y) xs ys"
  by (simp add: mapE_eq_Inr list_all2_conv_all_nth list_eq_iff_nth_eq)

lemma list_all2_map_Inr:
  "list_all2 (\<lambda>x y. g x = Inr y) xs ys \<Longrightarrow> map g xs = map Inr ys"
  by (induction rule: list_all2_induct) simp_all

lemma list_all2_concat_Inr:
  "list_all2 (\<lambda>x y. map g (h x) = map Inr (h' y)) xs ys \<Longrightarrow>
   map g (concat (map h xs)) = map Inr (concat (map h' ys))"
  by (induction rule: list_all2_induct) simp_all

lemma map_Inr_not_isl: "map g xs = map Inr ys \<Longrightarrow> a \<in> set xs \<Longrightarrow> \<not> isl (g a)"
proof -
  assume m: "map g xs = map Inr ys" and a: "a \<in> set xs"
  then have "g a \<in> set (map Inr ys)" by (metis image_eqI set_map)
  then show ?thesis by auto
qed

lemma js_map_Nil [simp]: "js_map f (JArr []) = Inr []"
  by (simp add: js_map_def)

lemma js_map_Inr:
  "js_map f v = Inr ys \<Longrightarrow> list_all2 (\<lambda>x y. f x = Inr y) (items v) ys"
  by (cases v) (simp_all add: js_map_def mapE_list_all2)

lemma or_empty_absent [simp]: "or_empty nf JUndefined = JArr []" "or_empty nf (JArr xs) = JArr xs"
  by (simp_all add: or_empty_def)

lemma items_or_empty: "items (or_empty nf v) = items v"
  by (cases v) (simp_all add: or_empty_def)

lemma js_map_or_empty_Inr:
  assumes "js_map f (or_empty nf v) = Inr ys"
  shows "list_all2 (\<lambda>x y. f x = Inr y) (items v) ys"
proof (cases "falsy nf v")
  case True
  then have "items v = []" by (cases v) simp_all
  moreover from True assms have "ys = []" by (simp add: or_empty_def)
  ultimately show ?thesis by simp
next
  case False
  with assms have "js_map f v = Inr ys" by (simp add: or_empty_def)
  then show ?thesis by (cases v) (simp_all add: js_map_def mapE_list_all2)
qed

lemma get_prop_other: "get_prop v k = Inr a \<Longrightarrow> get_prop v k' = Inr (field v k')"
  by (cases v) (simp_all add: field_def)

lemma get_prop_field: "get_prop v k = Inr a \<Longrightarrow> a = field v k"
  by (simp add: field_def)

text \<open>\<open>str_includes\<close> is the substring test.\<close>

lemma str_includes_iff: "str_includes s t = (\<exists>p q. s = p @ t @ q)"
proof (induction s)
  case Nil
  show ?case by auto
next
  case (Cons c cs)
  have pre: "(take (length t) (c # cs) = t) = (\<exists>q. c # cs = t @ q)"
    by (metis append_eq_conv_conj append_take_drop_id)
  have "(\<exists>p q. c # cs = p @ t @ q) = ((\<exists>q. c # cs = t @ q) \<or> (\<exists>p q. cs = p @ t @ q))"
  proof
    assume "\<exists>p q. c # cs = p @ t @ q"
    then obtain p q where pq: "c # cs = p @ t @ q" by blast
    show "(\<exists>q. c # cs = t @ q) \<or> (\<exists>p q. cs = p @ t @ q)"
    proof (cases p)
      case Nil
      with pq show ?thesis by auto
    next
      case (Cons a p')
      with pq have "cs = p' @ t @ q" by simp
      then show ?thesis by blast
    qed
  next
    assume "(\<exists>q. c # cs = t @ q) \<or> (\<exists>p q. cs = p @ t @ q)"
    then show "\<exists>p q. c # cs = p @ t @ q"
    proof
      assume "\<exists>q. c # cs = t @ q"
      then obtain q where "c # cs = [] @ t @ q" by auto
      then show ?thesis by blast
    next
      assume "\<exists>p q. cs = p @ t @ q"
      then obtain p q where "c # cs = (c # p) @ t @ q" by auto
      then show ?thesis by blast
    qed
  qed
  then show ?case using Cons.IH pre by simp
qed

section \<open>The conversions\<close>


lemma convertLookupAccounts_Inr:
  assumes "convertLookupAccounts rt d = Inr las"
  shows "map (PublicKey rt) (items (field d ''lookUpAccounts'')) = map Inr las"
proof -
  from assms obtain la where "get_prop d ''lookUpAccounts'' = Inr la"
    "js_map (PublicKey rt) (or_empty (number_falsy rt) la) = Inr las"
    unfolding convertLookupAccounts_def by (auto simp: bindE_eq_Inr)
  then show ?thesis
    using js_map_or_empty_Inr [of "PublicKey rt" "number_falsy rt" la las]
    by (simp add: field_def list_all2_map_Inr)
qed


lemma convertRoutePlanStep_Inr:
  assumes "convertRoutePlanStep rt rp = Inr s"
  shows "map (PublicKey rt) [field rp ''tokenA'', field rp ''tokenB'']
       = map Inr [RoutePlanStep.tokenA s, RoutePlanStep.tokenB s]"
  using assms unfolding convertRoutePlanStep_def by (auto simp: bindE_eq_Inr field_def)

lemma convertRoutePlan_Inr:
  assumes "convertRoutePlan rt d = Inr rps"
  shows "map (PublicKey rt) (route_addresses d) = map Inr (route_keys rps)"
proof -
  from assms obtain rp where rp: "get_prop d ''routePlan'' = Inr rp"
    "js_map (convertRoutePlanStep rt) (or_empty (number_falsy rt) rp) = Inr rps"
    unfolding convertRoutePlan_def by (auto simp: bindE_eq_Inr)
  then have "list_all2 (\<lambda>x y. convertRoutePlanStep rt x = Inr y) (items rp) rps"
    by (intro js_map_or_empty_Inr)
  then have "list_all2 (\<lambda>x y. map (PublicKey rt) [field x ''tokenA'', field x ''tokenB'']
       = map Inr [RoutePlanStep.tokenA y, RoutePlanStep.tokenB y]) (items rp) rps"
    by (rule list_all2_mono) (rule convertRoutePlanStep_Inr)
  then show ?thesis
    unfolding route_addresses_def route_keys_def using rp(1)
    by (simp add: field_def list_all2_concat_Inr)
qed

lemma convertAccountMeta_Inr:
  assumes "convertAccountMeta rt key = Inr m"
  shows "PublicKey rt (field key ''pubkey'') = Inr (pubkey m)
       \<and> isSigner m = field key ''isSigner'' \<and> isWritable m = field key ''isWritable''"
  using assms unfolding convertAccountMeta_def by (auto simp: bindE_eq_Inr field_def)

lemma convertAPIInstruction_Inr:
  assumes "convertAPIInstruction rt i = Inr y"
  shows "list_all2 (\<lambda>x m. convertAccountMeta rt x = Inr m) (items (field i ''keys'')) (keys y)
       \<and> PublicKey rt (field i ''programId'') = Inr (programId y)
       \<and> Buffer_from rt (field i ''data'') None = Inr (data y)"
proof -
  from assms obtain ks metas where "get_prop i ''keys'' = Inr ks"
    "js_map (convertAccountMeta rt) (or_empty (number_falsy rt) ks) = Inr metas"
    "PublicKey rt (field i ''programId'') = Inr (programId y)"
    "Buffer_from rt (field i ''data'') None = Inr (data y)" "keys y = metas"
    unfolding convertAPIInstruction_def by (auto simp: bindE_eq_Inr field_def)
  then show ?thesis
    using js_map_or_empty_Inr [of "convertAccountMeta rt" "number_falsy rt" ks metas]
    by (simp add: field_def)
qed

lemma convertAPIInstruction_keys:
  assumes "convertAPIInstruction rt i = Inr y"
  shows "map (PublicKey rt) (instruction_addresses i) = map Inr (instruction_keys y)"
proof -
  from assms have a: "list_all2 (\<lambda>x m. convertAccountMeta rt x = Inr m)
      (items (field i ''keys'')) (keys y)"
    and p: "PublicKey rt (field i ''programId'') = Inr (programId y)"
    using convertAPIInstruction_Inr by blast+
  from a have "list_all2 (\<lambda>x m. PublicKey rt (field x ''pubkey'') = Inr (pubkey m))
      (items (field i ''keys'')) (keys y)"
    by (rule list_all2_mono) (simp add: convertAccountMeta_Inr)
  then have "map (\<lambda>x. PublicKey rt (field x ''pubkey'')) (items (field i ''keys''))
      = map Inr (map pubkey (keys y))"
    by (induction rule: list_all2_induct) simp_all
  with p show ?thesis
    by (simp add: instruction_addresses_def instruction_keys_def comp_def)
qed

lemma convertAPIInstruction_shape:
  assumes "list_all2 (\<lambda>x y. convertAPIInstruction rt x = Inr y) xs ys"
  shows "map (\<lambda>y. length (keys y)) ys = map (\<lambda>i. length (items (field i ''keys''))) xs"
  using assms
proof (induction rule: list_all2_induct)
  case Nil
  show ?case by simp
next
  case (Cons x xs y ys)
  from Cons.hyps(1) have "length (keys y) = length (items (field x ''keys''))"
    using convertAPIInstruction_Inr [of rt x y] by (auto dest: list_all2_lengthD)
  with Cons.IH show ?case by simp
qed

lemma convertInstructionGroup_Inr:
  assumes "convertInstructionGroup rt g = Inr gr"
  shows "list_all2 (\<lambda>x y. convertAPIInstruction rt x = Inr y)
           (items (field g ''instructions'')) (instructions gr)
       \<and> list_all2 (\<lambda>x y. convertAPIInstruction rt x = Inr y)
           (items (field g ''cleanupInstructions'')) (cleanupInstructions gr)
       \<and> InstructionGroup.signers gr = or_empty (number_falsy rt) (field g ''signers'')"
proof -
  from assms obtain ins cls where "get_prop g ''instructions'' = Inr ins"
    "js_map (convertAPIInstruction rt) (or_empty (number_falsy rt) ins) = Inr (instructions gr)"
    "get_prop g ''cleanupInstructions'' = Inr cls"
    "js_map (convertAPIInstruction rt) (or_empty (number_falsy rt) cls)
       = Inr (cleanupInstructions gr)"
    "InstructionGroup.signers gr = or_empty (number_falsy rt) (field g ''signers'')"
    unfolding convertInstructionGroup_def by (auto simp: bindE_eq_Inr field_def)
  then show ?thesis
    using js_map_or_empty_Inr [of "convertAPIInstruction rt" "number_falsy rt" ins "instructions gr"]
      js_map_or_empty_Inr [of "convertAPIInstruction rt" "number_falsy rt" cls
        "cleanupInstructions gr"]
    by (simp add: field_def)
qed

lemma convertInstructionGroup_keys:
  assumes "convertInstructionGroup rt g = Inr gr"
  shows "map (PublicKey rt) (group_addresses g) = map Inr (group_keys gr)"
proof -
  from assms have "list_all2 (\<lambda>x y. convertAPIInstruction rt x = Inr y)
      (items (field g ''instructions'') @ items (field g ''cleanupInstructions''))
      (instructions gr @ cleanupInstructions gr)"
    using convertInstructionGroup_Inr [of rt g gr] by (simp add: list_all2_appendI)
  then have "list_all2 (\<lambda>x y. map (PublicKey rt) (instruction_addresses x)
        = map Inr (instruction_keys y))
      (items (field g ''instructions'') @ items (field g ''cleanupInstructions''))
      (instructions gr @ cleanupInstructions gr)"
    by (rule list_all2_mono) (rule convertAPIInstruction_keys)
  then show ?thesis
    unfolding group_addresses_def group_keys_def by (rule list_all2_concat_Inr)
qed

lemma convertInstructionGroup_shape:
  assumes "convertInstructionGroup rt g = Inr gr"
  shows "group_shape gr = raw_group_shape g"
proof -
  from convertInstructionGroup_Inr [OF assms]
  have i: "list_all2 (\<lambda>x y. convertAPIInstruction rt x = Inr y)
           (items (field g ''instructions'')) (instructions gr)"
    and c: "list_all2 (\<lambda>x y. convertAPIInstruction rt x = Inr y)
           (items (field g ''cleanupInstructions'')) (cleanupInstructions gr)"
    and s: "InstructionGroup.signers gr = or_empty (number_falsy rt) (field g ''signers'')"
    by blast+
  show ?thesis
    unfolding group_shape_def raw_group_shape_def
    using convertAPIInstruction_shape [OF i] convertAPIInstruction_shape [OF c] s
    by (simp add: items_or_empty)
qed

lemma convertToken_Inr:
  assumes "convertToken rt t = Inr tok"
  shows "PublicKey rt (field t ''address'') = Inr (address tok)
       \<and> name tok = field t ''name'' \<and> symbol tok = field t ''symbol''
       \<and> chainId tok = field t ''chainId'' \<and> decimals tok = field t ''decimals''
       \<and> logoURL tok = field t ''logoURL''"
  using assms unfolding convertToken_def by (auto simp: bindE_eq_Inr field_def)

lemma convertToken_total:
  assumes "get_prop t ''address'' = Inr a" "PublicKey rt a = Inr pk"
  shows "\<exists>tok. convertToken rt t = Inr tok"
  unfolding convertToken_def
  using assms get_prop_other [OF assms(1)] by simp

lemma swapTx_Inr:
  assumes "callSwapEndpoint rt sdk params = Inr d" "swapTx rt sdk params = Inr r"
  shows "convertLookupAccounts rt d = Inr (SwapTxResult.lookupAccounts r)
       \<and> convertRoutePlan rt d = Inr (SwapTxResult.routePlan r)"
  using assms unfolding swapTx_def by (auto simp: bindE_eq_Inr)

lemma swapTx_keys_Inr:
  assumes "callSwapEndpoint rt sdk params = Inr d" "swapTx rt sdk params = Inr r"
  shows "map (PublicKey rt) (swapTx_addresses d) = map Inr (swapTx_keys r)"
  using swapTx_Inr [OF assms]
  by (simp add: swapTx_addresses_def swapTx_keys_def convertLookupAccounts_Inr
      convertRoutePlan_Inr)

lemma swapIx_Inr:
  assumes "callSwapEndpoint rt sdk params = Inr d" "swapIx rt sdk params = Inr r"
  shows "convertLookupAccounts rt d = Inr (SwapIxResult.lookupAccounts r)
       \<and> convertRoutePlan rt d = Inr (SwapIxResult.routePlan r)
       \<and> list_all2 (\<lambda>x y. convertInstructionGroup rt x = Inr y)
           (items (field d ''inXs'')) (instructionGroups r)
       \<and> SwapIxResult.signers r = field d ''signers''"
proof -
  from assms obtain gs where "get_prop d ''inXs'' = Inr gs"
    "js_map (convertInstructionGroup rt) (or_empty (number_falsy rt) gs)
       = Inr (instructionGroups r)"
    "convertLookupAccounts rt d = Inr (SwapIxResult.lookupAccounts r)"
    "convertRoutePlan rt d = Inr (SwapIxResult.routePlan r)"
    "SwapIxResult.signers r = field d ''signers''"
    unfolding swapIx_def by (auto simp: bindE_eq_Inr field_def)
  then show ?thesis
    using js_map_or_empty_Inr [of "convertInstructionGroup rt" "number_falsy rt" gs
      "instructionGroups r"]
    by (simp add: field_def)
qed

lemma convertAccountMeta_retyped:
  "convertAccountMeta rt key = Inr m \<Longrightarrow> retyped_key rt key m"
  unfolding retyped_key_def by (rule convertAccountMeta_Inr)

lemma convertAPIInstruction_retyped:
  assumes "convertAPIInstruction rt i = Inr y"
  shows "retyped_instruction rt i y"
proof -
  from convertAPIInstruction_Inr [OF assms]
  have a: "list_all2 (\<lambda>x m. convertAccountMeta rt x = Inr m) (items (field i ''keys'')) (keys y)"
    and p: "PublicKey rt (field i ''programId'') = Inr (programId y)"
    and b: "Buffer_from rt (field i ''data'') None = Inr (data y)"
    by blast+
  from a have "list_all2 (retyped_key rt) (items (field i ''keys'')) (keys y)"
    by (rule list_all2_mono) (rule convertAccountMeta_retyped)
  with p b show ?thesis
    by (simp add: retyped_instruction_def)
qed

lemma convertInstructionGroup_retyped:
  assumes "convertInstructionGroup rt g = Inr gr"
  shows "retyped_group rt g gr"
proof -
  from convertInstructionGroup_Inr [OF assms]
  have a: "list_all2 (\<lambda>x y. convertAPIInstruction rt x = Inr y)
           (items (field g ''instructions'')) (instructions gr)"
    and c: "list_all2 (\<lambda>x y. convertAPIInstruction rt x = Inr y)
           (items (field g ''cleanupInstructions'')) (cleanupInstructions gr)"
    and s: "InstructionGroup.signers gr = or_empty (number_falsy rt) (field g ''signers'')"
    by blast+
  from a have a': "list_all2 (retyped_instruction rt)
           (items (field g ''instructions'')) (instructions gr)"
    by (rule list_all2_mono) (rule convertAPIInstruction_retyped)
  from c have "list_all2 (retyped_instruction rt)
           (items (field g ''cleanupInstructions'')) (cleanupInstructions gr)"
    by (rule list_all2_mono) (rule convertAPIInstruction_retyped)
  with a' s show ?thesis
    by (simp add: retyped_group_def)
qed

lemma convertRoutePlanStep_retyped:
  assumes "convertRoutePlanStep rt rp = Inr s"
  shows "retyped_hop rt rp s"
  using assms unfolding convertRoutePlanStep_def retyped_hop_def
  by (auto simp: bindE_eq_Inr field_def)

lemma convertRoutePlan_retyped:
  assumes "convertRoutePlan rt d = Inr rps"
  shows "list_all2 (retyped_hop rt) (items (field d ''routePlan'')) rps"
proof -
  from assms obtain rp where rp: "get_prop d ''routePlan'' = Inr rp"
    "js_map (convertRoutePlanStep rt) (or_empty (number_falsy rt) rp) = Inr rps"
    unfolding convertRoutePlan_def by (auto simp: bindE_eq_Inr)
  then have "list_all2 (\<lambda>x y. convertRoutePlanStep rt x = Inr y) (items rp) rps"
    by (intro js_map_or_empty_Inr)
  then have "list_all2 (retyped_hop rt) (items rp) rps"
    by (rule list_all2_mono) (rule convertRoutePlanStep_retyped)
  with rp(1) show ?thesis
    by (simp add: field_def)
qed

lemma swapIx_amounts_Inr:
  assumes "callSwapEndpoint rt sdk params = Inr d" "swapIx rt sdk params = Inr r"
  shows "Number rt (field d ''amountOut'') = Inr (SwapIxResult.amountOut r)
       \<and> Number rt (field d ''amountOutUi'') = Inr (SwapIxResult.amountOutUi r)"
  using assms unfolding swapIx_def by (auto simp: bindE_eq_Inr field_def)

lemma swapIx_keys_Inr:
  assumes "callSwapEndpoint rt sdk params = Inr d" "swapIx rt sdk params = Inr r"
  shows "map (PublicKey rt) (swapIx_addresses d) = map Inr (swapIx_keys r)"
proof -
  from swapIx_Inr [OF assms]
  have la: "convertLookupAccounts rt d = Inr (SwapIxResult.lookupAccounts r)"
    and rp: "convertRoutePlan rt d = Inr (SwapIxResult.routePlan r)"
    and gs: "list_all2 (\<lambda>x y. convertInstructionGroup rt x = Inr y)
           (items (field d ''inXs'')) (instructionGroups r)"
    by blast+
  from gs have "list_all2 (\<lambda>x y. map (PublicKey rt) (group_addresses x) = map Inr (group_keys y))
           (items (field d ''inXs'')) (instructionGroups r)"
    by (rule list_all2_mono) (rule convertInstructionGroup_keys)
  then have "map (PublicKey rt) (concat (map group_addresses (items (field d ''inXs''))))
      = map Inr (concat (map group_keys (instructionGroups r)))"
    by (rule list_all2_concat_Inr)
  then show ?thesis
    using la rp
    by (simp add: swapIx_addresses_def swapTx_addresses_def swapIx_keys_def
        convertLookupAccounts_Inr convertRoutePlan_Inr)
qed

lemma tokenList_keys_Inr:
  assumes "fetch rt \<lparr>url = baseUrl sdk @ ''/tokenList'', http_method = ''GET'',
                      headers = [], body = None\<rparr> = Inr response"
      and "ok response" and "json response = Inr d" and "tokenList rt sdk = Inr r"
  shows "map (PublicKey rt) (tokenList_addresses d) = map Inr (map address r)"
proof -
  from assms have "js_map (convertToken rt) d = Inr r"
    unfolding tokenList_def by simp
  then have "list_all2 (\<lambda>x y. convertToken rt x = Inr y) (items d) r"
    by (rule js_map_Inr)
  then have "list_all2 (\<lambda>x y. PublicKey rt (field x ''address'') = Inr (address y)) (items d) r"
    by (rule list_all2_mono) (simp add: convertToken_Inr)
  then show ?thesis
    unfolding tokenList_addresses_def by (induction rule: list_all2_induct) simp_all
qed




section \<open>Base58 in the test double\<close>

text \<open>
  Decoding followed by encoding gives the text back: every string \<open>bs58_decode\<close> accepts
  is the one \<open>bs58_encode\<close> prints for its bytes.
\<close>

lemma index_of_Some:
  "index_of c xs = Some i \<Longrightarrow> 0 \<le> i \<and> nat i < length xs \<and> xs ! nat i = c"
proof (induction xs arbitrary: i)
  case Nil
  then show ?case by simp
next
  case (Cons x xs)
  show ?case
  proof (cases "c = x")
    case True
    with Cons.prems show ?thesis by simp
  next
    case False
    with Cons.prems obtain j where j: "index_of c xs = Some j" "i = j + 1"
      by auto
    from Cons.IH [OF j(1)] j(2) show ?thesis
      by (simp add: nat_add_distrib)
  qed
qed

lemma index_of_zero: "index_of c (x # xs) = Some 0 \<Longrightarrow> c = x"
proof (rule ccontr)
  assume a: "index_of c (x # xs) = Some 0" and n: "c \<noteq> x"
  then obtain j where j: "index_of c xs = Some j" "j + 1 = 0" by auto
  from index_of_Some [OF j(1)] j(2) show False by simp
qed

lemma from_digits_snoc: "from_digits b (ds @ [d]) = from_digits b ds * b + d"
  by (simp add: from_digits_def)

lemma from_digits_Nil: "from_digits b [] = 0"
  by (simp add: from_digits_def)

lemma to_digits_nonpos [simp]: "n \<le> 0 \<Longrightarrow> to_digits b n = []"
  by (subst to_digits.simps) simp

lemma to_digits_pos:
  "0 < n \<Longrightarrow> 2 \<le> b \<Longrightarrow> to_digits b n = to_digits b (n div b) @ [n mod b]"
  by (subst to_digits.simps) simp

lemma to_digits_from_digits:
  assumes "2 \<le> b" "\<forall>d\<in>set ds. 0 \<le> d \<and> d < b" "ds \<noteq> [] \<longrightarrow> hd ds \<noteq> 0"
  shows "to_digits b (from_digits b ds) = ds \<and> (ds \<noteq> [] \<longrightarrow> 0 < from_digits b ds)"
  using assms(2,3)
proof (induction ds rule: rev_induct)
  case Nil
  show ?case by (simp add: from_digits_Nil)
next
  case (snoc d ds)
  have d: "0 \<le> d" "d < b" using snoc.prems by simp_all
  show ?case
  proof (cases "ds = []")
    case True
    with snoc.prems have "d \<noteq> 0" by simp
    with d have p: "0 < d" by simp
    with d assms(1) have "to_digits b d = [d]"
      by (simp add: to_digits_pos)
    with True p show ?thesis by (simp add: from_digits_def)
  next
    case False
    with snoc.prems have "\<forall>d\<in>set ds. 0 \<le> d \<and> d < b" "ds \<noteq> [] \<longrightarrow> hd ds \<noteq> 0"
      by simp_all
    from snoc.IH [OF this] False
    have ih: "to_digits b (from_digits b ds) = ds" "0 < from_digits b ds" by simp_all
    let ?n = "from_digits b ds * b + d"
    have b0: "0 < b" using assms(1) by simp
    from ih(2) d b0 have n: "0 < ?n"
      by (simp add: add_pos_nonneg)
    have dv: "?n div b = from_digits b ds" using d b0 by simp
    have md: "?n mod b = d" using d b0 by simp
    from to_digits_pos [OF n assms(1)] dv md ih(1) n show ?thesis
      by (simp add: from_digits_snoc)
  qed
qed

lemma from_digits_to_digits: "2 \<le> b \<Longrightarrow> 0 \<le> n \<Longrightarrow> from_digits b (to_digits b n) = n"
proof (induction b n rule: to_digits.induct)
  case (1 b n)
  show ?case
  proof (cases "n = 0")
    case True
    then show ?thesis by (simp add: from_digits_Nil)
  next
    case False
    with "1.prems" have n: "0 < n" by simp
    then have "\<not> (n \<le> 0 \<or> b < 2)" using "1.prems" by simp
    moreover have "0 \<le> n div b" using n "1.prems" by (simp add: pos_imp_zdiv_nonneg_iff)
    ultimately have "from_digits b (to_digits b (n div b)) = n div b"
      using "1.IH" "1.prems" by blast
    with to_digits_pos [OF n "1.prems"(1)] show ?thesis
      by (simp add: from_digits_snoc)
  qed
qed

lemma to_digits_range: "d \<in> set (to_digits b n) \<Longrightarrow> 0 \<le> d \<and> d < b"
proof (induction b n rule: to_digits.induct)
  case (1 b n)
  show ?case
  proof (cases "n \<le> 0 \<or> b < 2")
    case True
    then have "to_digits b n = []" by (subst to_digits.simps) simp
    with "1.prems" show ?thesis by simp
  next
    case False
    then have "to_digits b n = to_digits b (n div b) @ [n mod b]"
      by (subst to_digits.simps) simp
    with "1.prems" have "d \<in> set (to_digits b (n div b)) \<or> d = n mod b" by auto
    then show ?thesis
    proof
      assume "d \<in> set (to_digits b (n div b))"
      with "1.IH" False show ?thesis by blast
    next
      assume "d = n mod b"
      with False show ?thesis by simp
    qed
  qed
qed

lemma to_digits_hd:
  "0 < n \<Longrightarrow> 2 \<le> b \<Longrightarrow> to_digits b n \<noteq> [] \<and> hd (to_digits b n) \<noteq> 0"
proof (induction b n rule: to_digits.induct)
  case (1 b n)
  have e: "to_digits b n = to_digits b (n div b) @ [n mod b]"
    using "1.prems" by (rule to_digits_pos)
  show ?case
  proof (cases "n div b = 0")
    case True
    then have "n mod b = n" using "1.prems" by (metis add_cancel_left_left mult_zero_right div_mult_mod_eq mult.commute)
    with True e "1.prems" show ?thesis by (simp)
  next
    case False
    have "0 \<le> n div b" using "1.prems" by (simp add: pos_imp_zdiv_nonneg_iff)
    with False have "0 < n div b" by simp
    moreover have "\<not> (n \<le> 0 \<or> b < 2)" using "1.prems" by simp
    ultimately have "to_digits b (n div b) \<noteq> [] \<and> hd (to_digits b (n div b)) \<noteq> 0"
      using "1.IH" "1.prems" by blast
    with e show ?thesis by (simp)
  qed
qed

lemma uint_byte: "0 \<le> d \<Longrightarrow> d < 256 \<Longrightarrow> uint (of_int d :: 8 word) = d"
  by (simp add: uint_word_of_int take_bit_eq_mod)

lemma byte_nonzero: "0 < d \<Longrightarrow> d < 256 \<Longrightarrow> (of_int d :: 8 word) \<noteq> 0"
proof
  assume d: "0 < d" "d < 256" and z: "(of_int d :: 8 word) = 0"
  from d have "uint (of_int d :: 8 word) = d" by (simp add: uint_byte)
  with z d show False by simp
qed


lemma takeWhile_replicate_append:
  assumes "ws = [] \<or> hd ws \<noteq> x"
  shows "takeWhile (\<lambda>b. b = x) (replicate z x @ ws) = replicate z x"
    and "dropWhile (\<lambda>b. b = x) (replicate z x @ ws) = ws"
proof -
  have t: "takeWhile (\<lambda>b. b = x) ws = []" and d: "dropWhile (\<lambda>b. b = x) ws = ws"
    using assms by (cases ws; simp)+
  show "takeWhile (\<lambda>b. b = x) (replicate z x @ ws) = replicate z x"
    by (induction z) (simp_all add: t)
  show "dropWhile (\<lambda>b. b = x) (replicate z x @ ws) = ws"
    by (induction z) (simp_all add: d)
qed

lemma takeWhile_eq_replicate: "takeWhile (\<lambda>c. c = x) s = replicate (length (takeWhile (\<lambda>c. c = x) s)) x"
  by (induction s) simp_all

lemma length_ALPHABET: "length ALPHABET = 58"
  by (simp add: ALPHABET_def)

lemma ALPHABET_hd: "ALPHABET = CHR ''1'' # tl ALPHABET"
  by (simp add: ALPHABET_def)

lemma bs58_roundtrip:
  assumes "bs58_decode s = Inr bs"
  shows "bs58_encode bs = s"
proof -
  let ?one = "\<lambda>c. c = CHR ''1''"
  let ?z = "length (takeWhile ?one s)"
  let ?rest = "dropWhile ?one s"
  let ?ds = "map (\<lambda>c. the (index_of c ALPHABET)) ?rest"
  let ?n = "from_digits 58 ?ds"
  let ?B = "to_digits 256 ?n"
  from assms have ok: "\<not> list_ex Option.is_none (map (\<lambda>c. index_of c ALPHABET) ?rest)"
    and bs: "bs = replicate ?z 0 @ map of_int ?B"
    by (auto simp: bs58_decode_def Let_def comp_def split: if_splits)
  have some: "\<exists>i. index_of c ALPHABET = Some i" if "c \<in> set ?rest" for c
  proof (cases "index_of c ALPHABET")
    case None
    with that have "None \<in> (\<lambda>c. index_of c ALPHABET) ` set ?rest" by force
    with ok show ?thesis by (simp add: list_ex_iff Option.is_none_def)
  next
    case (Some i)
    then show ?thesis by blast
  qed
  have dig: "0 \<le> the (index_of c ALPHABET) \<and> the (index_of c ALPHABET) < 58
      \<and> ALPHABET ! nat (the (index_of c ALPHABET)) = c" if "c \<in> set ?rest" for c
  proof -
    from some [OF that] obtain i where i: "index_of c ALPHABET = Some i" by blast
    from index_of_Some [OF i] have "0 \<le> i" "nat i < 58" "ALPHABET ! nat i = c"
      by (simp_all add: length_ALPHABET)
    moreover from this have "i < 58" by linarith
    ultimately show ?thesis using i by simp
  qed
  have rng: "\<forall>d\<in>set ?ds. 0 \<le> d \<and> d < 58"
    using dig by auto
  have hd: "?ds \<noteq> [] \<longrightarrow> hd ?ds \<noteq> 0"
  proof
    assume ne: "?ds \<noteq> []"
    then have r: "?rest \<noteq> []" by simp
    then have h: "hd ?rest \<in> set ?rest" by simp
    from r have n1: "hd ?rest \<noteq> CHR ''1''" by (rule hd_dropWhile)
    show "hd ?ds \<noteq> 0"
    proof
      assume "hd ?ds = 0"
      with r have z: "the (index_of (hd ?rest) ALPHABET) = 0" by (simp add: hd_map)
      from some [OF h] obtain i where i: "index_of (hd ?rest) ALPHABET = Some i" by blast
      with z have "index_of (hd ?rest) (CHR ''1'' # tl ALPHABET) = Some 0"
        using ALPHABET_hd by simp
      then have "hd ?rest = CHR ''1''" by (rule index_of_zero)
      with n1 show False by simp
    qed
  qed
  from to_digits_from_digits [of 58 ?ds] rng hd
  have td: "to_digits 58 ?n = ?ds" and pos: "?ds \<noteq> [] \<longrightarrow> 0 < ?n" by simp_all
  have n0: "0 \<le> ?n"
  proof (cases "?ds = []")
    case True
    have "?n = from_digits 58 []" by (subst True) (rule refl)
    then show ?thesis by (simp only: from_digits_Nil order_refl)
  next
    case False
    with pos show ?thesis by simp
  qed
  have Brng: "\<forall>d\<in>set ?B. 0 \<le> d \<and> d < 256"
    using to_digits_range by blast
  have lead: "map of_int ?B = [] \<or> hd (map of_int ?B :: 8 word list) \<noteq> 0"
  proof (cases "0 < ?n")
    case False
    with n0 have "?n = 0" by simp
    then show ?thesis by simp
  next
    case True
    then have h: "?B \<noteq> []" "hd ?B \<noteq> 0" using to_digits_hd [of ?n 256] by simp_all
    then have "hd ?B \<in> set ?B" by simp
    with Brng have r: "0 \<le> hd ?B \<and> hd ?B < 256" by blast
    with h(2) have "0 < hd ?B" by linarith
    moreover from r have "hd ?B < 256" by simp
    ultimately have "(of_int (hd ?B) :: 8 word) \<noteq> 0" by (rule byte_nonzero)
    with h show ?thesis by (simp add: hd_map)
  qed
  have z: "length (takeWhile (\<lambda>b. b = 0) bs) = ?z"
    unfolding bs using takeWhile_replicate_append(1) [OF lead, of ?z] by simp
  have dr: "dropWhile (\<lambda>b. b = 0) bs = map of_int ?B"
    unfolding bs using takeWhile_replicate_append(2) [OF lead, of ?z] by simp
  have "map uint (map of_int ?B :: 8 word list) = ?B"
    using Brng by (simp add: map_idI uint_byte comp_def)
  then have n: "from_digits 256 (map uint (dropWhile (\<lambda>b. b = 0) bs)) = ?n"
    using n0 by (simp add: dr from_digits_to_digits)
  have chars: "map (\<lambda>d. ALPHABET ! nat d) ?ds = ?rest"
    using dig by (simp add: comp_def map_idI)
  have "bs58_encode bs = replicate ?z (CHR ''1'') @ ?rest"
    unfolding bs58_encode_def Let_def n z td chars ..
  also have "\<dots> = takeWhile ?one s @ ?rest"
    using takeWhile_eq_replicate [of "CHR ''1''" s] by simp
  also have "\<dots> = s" by simp
  finally show ?thesis .
qed

section \<open>The test double, evaluated\<close>

lemma bs58_decode_secret1: "bs58_decode secret1_text = Inr secret1_bytes"
  unfolding secret1_text_def secret1_bytes_def by code_simp

lemma length_secret1: "length secret1_bytes = 64"
  unfolding secret1_bytes_def by simp

lemma bs58_decode_secret2: "bs58_decode secret2_text = Inr secret2_bytes"
  unfolding secret2_text_def secret2_bytes_def by code_simp

lemma length_secret2: "length secret2_bytes = 64"
  unfolding secret2_bytes_def by simp

lemma bs58_decode_mintA: "bs58_decode mintA_text = Inr mintA_bytes"
  unfolding mintA_text_def mintA_bytes_def by code_simp

lemma length_mintA: "length mintA_bytes = 32"
  unfolding mintA_bytes_def by simp

lemma bs58_encode_mintA: "bs58_encode mintA_bytes = mintA_text"
  unfolding mintA_text_def mintA_bytes_def by code_simp

lemma bs58_decode_mintB: "bs58_decode mintB_text = Inr mintB_bytes"
  unfolding mintB_text_def mintB_bytes_def by code_simp

lemma length_mintB: "length mintB_bytes = 32"
  unfolding mintB_bytes_def by simp

lemma bs58_encode_mintB: "bs58_encode mintB_bytes = mintB_text"
  unfolding mintB_text_def mintB_bytes_def by code_simp

lemma bs58_decode_wsol: "bs58_decode wsol_text = Inr wsol_bytes"
  unfolding wsol_text_def wsol_bytes_def by code_simp

lemma length_wsol: "length wsol_bytes = 32"
  unfolding wsol_bytes_def by simp

lemma bs58_encode_wsol: "bs58_encode wsol_bytes = wsol_text"
  unfolding wsol_text_def wsol_bytes_def by code_simp

lemma bs58_decode_bad: "bs58_decode ''0OIl'' = Inl (Error ''Non-base58 character'')"
  by code_simp

lemma bs58_decode_secret1_base64:
  "bs58_decode secret1_base64 = Inl (Error ''Non-base58 character'')"
  unfolding secret1_base64_def by code_simp

lemma base64_decode_secret1: "base64_decode secret1_base64 = secret1_bytes"
  unfolding secret1_base64_def secret1_bytes_def by code_simp

lemma base64_decode_example: "base64_decode ''AQIDBA=='' = [1, 2, 3, 4]"
  by code_simp

lemma parse_decimal_examples:
  "parse_decimal ''1.2345'' = Some (12345 / 10000)"
  "parse_decimal ''500000'' = Some 500000"
  "parse_decimal ''0.5'' = Some (1 / 2)"
  by code_simp+

lemma falsy_stub [simp]:
  "number_falsy (stub_runtime r) = (\<lambda>n. n = None \<or> n = Some 0)"
  by (simp add: stub_runtime_def)

lemma Number_stub:
  "Number (stub_runtime r) (JStr ''500000'') = Inr (Some 500000)"
  "Number (stub_runtime r) (JStr ''0.5'') = Inr (Some (1 / 2))"
  by (simp_all add: stub_runtime_def parse_decimal_examples)

lemma Buffer_from_stub:
  "Buffer_from (stub_runtime r) (JStr s) None = Inr (map (\<lambda>c. of_nat (of_char c)) s)"
  by (simp add: stub_runtime_def)

lemma base58_decode_stub: "base58_decode (stub_runtime r) (JStr s) = bs58_decode s"
  by (simp add: stub_runtime_def)

lemma toBase58_stub: "toBase58 (stub_runtime r) = bs58_encode"
  by (simp add: stub_runtime_def)


lemma PublicKey_stub:
  "PublicKey (stub_runtime r) (JStr mintA_text) = Inr mintA_bytes"
  "PublicKey (stub_runtime r) (JStr mintB_text) = Inr mintB_bytes"
  "PublicKey (stub_runtime r) (JStr wsol_text) = Inr wsol_bytes"
  by (simp_all add: stub_runtime_def bs58_decode_mintA bs58_decode_mintB bs58_decode_wsol
      length_mintA length_mintB length_wsol)

lemma PublicKey_stub_bad: "isl (PublicKey (stub_runtime r) (JStr ''0OIl''))"
  by (simp add: stub_runtime_def bs58_decode_bad)

lemma standard_encoding_stub:
  "standard_encoding (stub_runtime r) wsol_text"
  "standard_encoding (stub_runtime r) mintA_text"
  by (simp_all add: standard_encoding_def PublicKey_stub toBase58_stub
      bs58_encode_wsol bs58_encode_mintA)

lemma callSwapEndpoint_stub:
  "callSwapEndpoint (stub_runtime (stub_ok v)) sdk params = Inr v"
  by (simp add: callSwapEndpoint_def stub_runtime_def stub_ok_def)

lemma deserializeTransaction_stub:
  "map_of kvs ''transaction'' = Some (JStr ''AQIDBA=='') \<Longrightarrow>
   deserializeTransaction (stub_runtime r) (JObj kvs) = Inr \<lparr>message = [1, 2, 3, 4], signed_by = []\<rparr>"
  by (simp add: deserializeTransaction_def stub_runtime_def base64_decode_example)

lemma convertLookupAccounts_stub:
  "map_of kvs ''lookUpAccounts'' = Some (JArr [JStr wsol_text]) \<Longrightarrow>
   convertLookupAccounts (stub_runtime r) (JObj kvs) = Inr [wsol_bytes]"
  by (simp add: convertLookupAccounts_def or_empty_def js_map_def PublicKey_stub)

lemma convertRoutePlan_stub:
  "map_of kvs ''routePlan'' = Some (JArr [JObj [(''tokenA'', JStr mintA_text),
      (''tokenB'', JStr mintB_text), (''dexId'', JStr ''INVARIANT'')]]) \<Longrightarrow>
   convertRoutePlan (stub_runtime r) (JObj kvs)
     = Inr [\<lparr>tokenA = mintA_bytes, tokenB = mintB_bytes, dexId = JStr ''INVARIANT''\<rparr>]"
  by (simp add: convertRoutePlan_def convertRoutePlanStep_def or_empty_def js_map_def
      PublicKey_stub)

lemma convertSigner_stub:
  "convertSigner (stub_runtime r) (JStr secret1_text) = Inr secret1_bytes"
  "convertSigner (stub_runtime r) (JStr secret2_text) = Inr secret2_bytes"
  by (simp_all add: convertSigner_def stub_runtime_def bs58_decode_secret1 bs58_decode_secret2
      length_secret1 length_secret2)

lemma convertInstructionGroup_stub:
  "js_map (convertInstructionGroup (stub_runtime r)) (JArr stub_groups) =
     Inr [\<lparr>instructions =
              [\<lparr>keys = [\<lparr>pubkey = mintA_bytes, isSigner = JBool True, isWritable = JBool True\<rparr>,
                        \<lparr>pubkey = mintB_bytes, isSigner = JBool False, isWritable = JBool False\<rparr>],
                programId = wsol_bytes, data = [65, 81]\<rparr>],
            cleanupInstructions = [\<lparr>keys = [], programId = mintB_bytes, data = [65, 103]\<rparr>],
            InstructionGroup.signers = JArr [JStr secret1_text]\<rparr>,
          \<lparr>instructions = [], cleanupInstructions = [],
            InstructionGroup.signers = JArr []\<rparr>]"
  by (simp add: stub_groups_def js_map_def convertInstructionGroup_def
      convertAPIInstruction_def convertAccountMeta_def PublicKey_stub Buffer_from_stub)

text \<open>In the test double every address string that parses is a standard encoding.\<close>

lemma standard_encoding_stub_all:
  assumes "PublicKey (stub_runtime r) (JStr s) = Inr pk"
  shows "standard_encoding (stub_runtime r) s"
proof -
  from assms have "bs58_decode s = Inr pk"
    by (auto simp: stub_runtime_def bindE_eq_Inr split: if_splits)
  then have "bs58_encode pk = s" by (rule bs58_roundtrip)
  with assms show ?thesis by (simp add: standard_encoding_def toBase58_stub)
qed

section \<open>The signers of \<open>swapTx\<close>\<close>

text \<open>
  C2. Let the answer be a success whose transaction deserializes and whose \<open>signers\<close>
  field is an array of \<open>N\<close> entries. Every result \<open>swapTx\<close> returns has exactly \<open>N\<close>
  keypairs, the \<open>i\<close>-th decoded from the \<open>i\<close>-th entry, and its transaction is the one
  \<open>sign\<close> returned for the deserialized transaction and all \<open>N\<close> keypairs in that order:
  there is no result with fewer. And the call does return that result whenever every
  entry decodes, \<open>sign\<close> accepts the keypairs and the two amounts convert.
\<close>

theorem swapTx_signs_with_every_signer:
  assumes "callSwapEndpoint rt sdk params = Inr data'"
      and "deserializeTransaction rt data' = Inr tx"
      and "convertLookupAccounts rt data' = Inr las"
      and "convertRoutePlan rt data' = Inr rps"
      and "get_prop data' ''signers'' = Inr (JArr ss)"
  shows "(\<forall>r. swapTx rt sdk params = Inr r \<longrightarrow>
            length (SwapTxResult.signers r) = length ss
          \<and> map (convertSigner rt) ss = map Inr (SwapTxResult.signers r)
          \<and> sign rt tx (SwapTxResult.signers r) = Inr (transaction r))
       \<and> (\<forall>kps signed ao out aou ui.
            map (convertSigner rt) ss = map Inr kps \<and> sign rt tx kps = Inr signed
          \<and> get_prop data' ''amountOut'' = Inr ao \<and> Number rt ao = Inr out
          \<and> get_prop data' ''amountOutUi'' = Inr aou \<and> Number rt aou = Inr ui
          \<longrightarrow> swapTx rt sdk params =
               Inr \<lparr>transaction = signed, SwapTxResult.amountOut = out,
                    SwapTxResult.amountOutUi = ui, SwapTxResult.routePlan = rps,
                    SwapTxResult.lookupAccounts = las, SwapTxResult.signers = kps\<rparr>)"
proof -
  have sw: "swapTx rt sdk params =
     bindE (mapE (convertSigner rt) ss) (\<lambda>kps.
     bindE (sign rt tx kps) (\<lambda>signed.
     bindE (get_prop data' ''amountOut'') (\<lambda>ao. bindE (Number rt ao) (\<lambda>out.
     bindE (get_prop data' ''amountOutUi'') (\<lambda>aou. bindE (Number rt aou) (\<lambda>ui.
       Inr \<lparr>transaction = signed, SwapTxResult.amountOut = out,
            SwapTxResult.amountOutUi = ui, SwapTxResult.routePlan = rps,
            SwapTxResult.lookupAccounts = las, SwapTxResult.signers = kps\<rparr>))))))"
    unfolding swapTx_def using assms by (simp add: js_map_def)
  have 1: "length (SwapTxResult.signers r) = length ss
          \<and> map (convertSigner rt) ss = map Inr (SwapTxResult.signers r)
          \<and> sign rt tx (SwapTxResult.signers r) = Inr (transaction r)"
    if r: "swapTx rt sdk params = Inr r" for r
  proof -
    from r obtain kps signed where k: "mapE (convertSigner rt) ss = Inr kps"
      and s: "sign rt tx kps = Inr signed"
      and f: "SwapTxResult.signers r = kps" "transaction r = signed"
      unfolding sw by (auto simp: bindE_eq_Inr)
    from k have "length kps = length ss" by (rule mapE_length)
    moreover from k have "map (convertSigner rt) ss = map Inr kps" by (simp add: mapE_eq_Inr)
    ultimately show ?thesis using s f by simp
  qed
  have 2: "swapTx rt sdk params =
               Inr \<lparr>transaction = signed, SwapTxResult.amountOut = out,
                    SwapTxResult.amountOutUi = ui, SwapTxResult.routePlan = rps,
                    SwapTxResult.lookupAccounts = las, SwapTxResult.signers = kps\<rparr>"
    if "map (convertSigner rt) ss = map Inr kps" "sign rt tx kps = Inr signed"
       "get_prop data' ''amountOut'' = Inr ao" "Number rt ao = Inr out"
       "get_prop data' ''amountOutUi'' = Inr aou" "Number rt aou = Inr ui"
    for kps signed ao out aou ui
  proof -
    from that(1) have "mapE (convertSigner rt) ss = Inr kps" by (simp add: mapE_eq_Inr)
    then show ?thesis unfolding sw using that by simp
  qed
  from 1 2 show ?thesis by blast
qed

theorem swapTx_signs_with_every_signer_witness:
  "swapTx (stub_runtime (stub_ok (JObj stub_swap_fields))) (new_SwapSDK None) stub_params =
     Inr \<lparr>transaction = \<lparr>message = [1, 2, 3, 4], signed_by = [secret1_bytes, secret2_bytes]\<rparr>,
          SwapTxResult.amountOut = Some 500000,
          SwapTxResult.amountOutUi = Some (1 / 2),
          SwapTxResult.routePlan =
            [\<lparr>tokenA = mintA_bytes, tokenB = mintB_bytes, dexId = JStr ''INVARIANT''\<rparr>],
          SwapTxResult.lookupAccounts = [wsol_bytes],
          SwapTxResult.signers = [secret1_bytes, secret2_bytes]\<rparr>"
proof -
  have "sign (stub_runtime (stub_ok (JObj stub_swap_fields)))
          \<lparr>message = [1, 2, 3, 4], signed_by = []\<rparr> [secret1_bytes, secret2_bytes]
        = Inr \<lparr>message = [1, 2, 3, 4], signed_by = [secret1_bytes, secret2_bytes]\<rparr>"
    by (simp add: stub_runtime_def)
  moreover have "Number (stub_runtime (stub_ok (JObj stub_swap_fields))) (JStr ''500000'')
      = Inr (Some 500000)"
    "Number (stub_runtime (stub_ok (JObj stub_swap_fields))) (JStr ''0.5'') = Inr (Some (1 / 2))"
    by (simp_all add: stub_runtime_def parse_decimal_examples)
  ultimately show ?thesis
    using swapTx_signs_with_every_signer
      [where rt = "stub_runtime (stub_ok (JObj stub_swap_fields))"
         and sdk = "new_SwapSDK None" and params = stub_params
         and data' = "JObj stub_swap_fields"
         and tx = "\<lparr>message = [1, 2, 3, 4], signed_by = []\<rparr>"
         and las = "[wsol_bytes]"
         and rps = "[\<lparr>tokenA = mintA_bytes, tokenB = mintB_bytes, dexId = JStr ''INVARIANT''\<rparr>]"
         and ss = "[JStr secret1_text, JStr secret2_text]"]
    by (simp add: callSwapEndpoint_stub stub_swap_fields_def
      deserializeTransaction_stub convertLookupAccounts_stub convertRoutePlan_stub
      convertSigner_stub)
qed

text \<open>
  C1. The comment above the statement, the interfaces and the README call a signer a
  base64 string, but the statement decodes it with \<open>base58.decode\<close>. A 64-byte secret key
  in base64 ends in \<open>==\<close>, which is outside the base58 alphabet: for an answer whose one
  signer is the first secret key in base64, \<open>swapTx\<close> throws \<open>Non-base58 character\<close> and
  no keypair is made of it, although base64 decoding gives the 64 bytes of a keypair.
  That the entries are decoded and applied in the order given is the theorem before.
\<close>

theorem swapTx_base64_signer_is_rejected:
  "swapTx (stub_runtime (stub_ok (stub_swap_with ''signers'' (JArr [JStr secret1_base64]))))
      (new_SwapSDK None) stub_params = Inl (Error ''Non-base58 character'')
   \<and> bindE (Buffer_from (stub_runtime (stub_ok JNull)) (JStr secret1_base64) (Some ''base64''))
        (Keypair_fromSecretKey (stub_runtime (stub_ok JNull))) = Inr secret1_bytes"
proof -
  have "swapTx (stub_runtime (stub_ok (stub_swap_with ''signers'' (JArr [JStr secret1_base64]))))
      (new_SwapSDK None) stub_params = Inl (Error ''Non-base58 character'')"
    by (simp add: swapTx_def callSwapEndpoint_stub stub_swap_with_def stub_swap_fields_def
      deserializeTransaction_stub convertLookupAccounts_stub convertRoutePlan_stub
      js_map_def convertSigner_def base58_decode_stub bs58_decode_secret1_base64)
  moreover have "bindE (Buffer_from (stub_runtime (stub_ok JNull)) (JStr secret1_base64)
        (Some ''base64'')) (Keypair_fromSecretKey (stub_runtime (stub_ok JNull)))
      = Inr secret1_bytes"
    by (simp add: stub_runtime_def base64_decode_secret1 length_secret1)
  ultimately show ?thesis by blast
qed

text \<open>
  C10. \<open>data.signers.map\<close> has no \<open>|| []\<close>: when the answer has no \<open>signers\<close> field,
  \<open>swapTx\<close> fails, with the \<open>TypeError\<close> of reading \<open>map\<close> on \<open>undefined\<close> when everything
  before that statement went through. No result with zero signers comes back.
\<close>

theorem swapTx_fails_without_signers:
  assumes "callSwapEndpoint rt sdk params = Inr data'"
      and "get_prop data' ''signers'' = Inr JUndefined"
  shows "(\<exists>e. swapTx rt sdk params = Inl e)
       \<and> (\<forall>tx las rps. deserializeTransaction rt data' = Inr tx
             \<and> convertLookupAccounts rt data' = Inr las
             \<and> convertRoutePlan rt data' = Inr rps
            \<longrightarrow> swapTx rt sdk params = Inl TypeError)"
proof -
  have m: "js_map (convertSigner rt) JUndefined = Inl TypeError"
    by (simp add: js_map_def)
  have 2: "swapTx rt sdk params = Inl TypeError"
    if "deserializeTransaction rt data' = Inr tx" "convertLookupAccounts rt data' = Inr las"
       "convertRoutePlan rt data' = Inr rps" for tx las rps
    unfolding swapTx_def using assms that by (simp add: m)
  have 1: "\<exists>e. swapTx rt sdk params = Inl e"
  proof (cases "deserializeTransaction rt data'")
    case Inl
    then show ?thesis unfolding swapTx_def using assms by simp
  next
    case tx: (Inr tx)
    show ?thesis
    proof (cases "convertLookupAccounts rt data'")
      case Inl
      then show ?thesis unfolding swapTx_def using assms tx by simp
    next
      case las: (Inr las)
      show ?thesis
      proof (cases "convertRoutePlan rt data'")
        case Inl
        then show ?thesis unfolding swapTx_def using assms tx las by simp
      next
        case (Inr rps)
        then show ?thesis using 2 tx las by blast
      qed
    qed
  qed
  from 1 2 show ?thesis by blast
qed

theorem swapTx_fails_without_signers_witness:
  "swapTx (stub_runtime (stub_ok (stub_swap_without ''signers''))) (new_SwapSDK None) stub_params
     = Inl TypeError"
  using swapTx_fails_without_signers
    [where rt = "stub_runtime (stub_ok (stub_swap_without ''signers''))"
       and sdk = "new_SwapSDK None" and params = stub_params
       and data' = "stub_swap_without ''signers''"]
  by (simp add: callSwapEndpoint_stub stub_swap_without_def stub_swap_fields_def
      deserializeTransaction_stub convertLookupAccounts_stub convertRoutePlan_stub)

section \<open>Instruction groups\<close>

text \<open>
  C6. On a successful answer with \<open>K\<close> instruction groups, every result of \<open>swapIx\<close> has
  \<open>K\<close> groups of the same shape as the raw ones (as many instructions and cleanup
  instructions, each with as many account keys, and the same signers); the instructions
  of a group are the raw ones converted by \<open>convertAPIInstruction\<close>, in order, and the
  top-level signers are passed on as they came. Field by field: every account key has
  the \<open>PublicKey\<close> of the raw \<open>pubkey\<close> and the raw \<open>isSigner\<close> and \<open>isWritable\<close>
  unchanged; every instruction and cleanup instruction has the raw keys so converted,
  one for one, the \<open>PublicKey\<close> of the raw \<open>programId\<close> and the \<open>Buffer.from\<close> of the raw
  \<open>data\<close>; every group has the raw signers, none where they are absent; every hop of the
  route plan has the \<open>PublicKey\<close> of the raw \<open>tokenA\<close> and \<open>tokenB\<close> and the raw \<open>dexId\<close>;
  the lookup accounts are the \<open>PublicKey\<close>s of the raw ones and the two amounts are the
  \<open>Number\<close>s of the raw ones. The call returns this result whenever the lookup accounts,
  the route plan, the groups and the two amounts convert.
\<close>

theorem swapIx_keeps_structure:
  assumes "callSwapEndpoint rt sdk params = Inr d"
  shows "(\<forall>r. swapIx rt sdk params = Inr r \<longrightarrow>
            length (instructionGroups r) = length (items (field d ''inXs''))
          \<and> map group_shape (instructionGroups r) = map raw_group_shape (items (field d ''inXs''))
          \<and> (\<forall>i<length (items (field d ''inXs'')).
                map (convertAPIInstruction rt)
                    (items (field (items (field d ''inXs'') ! i) ''instructions''))
                  = map Inr (instructions (instructionGroups r ! i))
              \<and> map (convertAPIInstruction rt)
                    (items (field (items (field d ''inXs'') ! i) ''cleanupInstructions''))
                  = map Inr (cleanupInstructions (instructionGroups r ! i))
              \<and> InstructionGroup.signers (instructionGroups r ! i)
                  = or_empty (number_falsy rt) (field (items (field d ''inXs'') ! i) ''signers''))
          \<and> SwapIxResult.signers r = field d ''signers''
          \<and> list_all2 (retyped_group rt) (items (field d ''inXs'')) (instructionGroups r)
          \<and> list_all2 (retyped_hop rt) (items (field d ''routePlan'')) (SwapIxResult.routePlan r)
          \<and> map (PublicKey rt) (items (field d ''lookUpAccounts''))
              = map Inr (SwapIxResult.lookupAccounts r)
          \<and> Number rt (field d ''amountOut'') = Inr (SwapIxResult.amountOut r)
          \<and> Number rt (field d ''amountOutUi'') = Inr (SwapIxResult.amountOutUi r))
       \<and> (\<forall>las rps groups out ui.
            convertLookupAccounts rt d = Inr las \<and> convertRoutePlan rt d = Inr rps
          \<and> js_map (convertInstructionGroup rt) (or_empty (number_falsy rt) (field d ''inXs''))
              = Inr groups
          \<and> Number rt (field d ''amountOut'') = Inr out
          \<and> Number rt (field d ''amountOutUi'') = Inr ui
          \<longrightarrow> swapIx rt sdk params =
               Inr \<lparr>instructionGroups = groups, SwapIxResult.amountOut = out,
                    SwapIxResult.amountOutUi = ui, SwapIxResult.routePlan = rps,
                    SwapIxResult.lookupAccounts = las,
                    SwapIxResult.signers = field d ''signers''\<rparr>)"
proof -
  have 1: "length (instructionGroups r) = length (items (field d ''inXs''))
          \<and> map group_shape (instructionGroups r) = map raw_group_shape (items (field d ''inXs''))
          \<and> (\<forall>i<length (items (field d ''inXs'')).
                map (convertAPIInstruction rt)
                    (items (field (items (field d ''inXs'') ! i) ''instructions''))
                  = map Inr (instructions (instructionGroups r ! i))
              \<and> map (convertAPIInstruction rt)
                    (items (field (items (field d ''inXs'') ! i) ''cleanupInstructions''))
                  = map Inr (cleanupInstructions (instructionGroups r ! i))
              \<and> InstructionGroup.signers (instructionGroups r ! i)
                  = or_empty (number_falsy rt) (field (items (field d ''inXs'') ! i) ''signers''))
          \<and> SwapIxResult.signers r = field d ''signers''
          \<and> list_all2 (retyped_group rt) (items (field d ''inXs'')) (instructionGroups r)
          \<and> list_all2 (retyped_hop rt) (items (field d ''routePlan'')) (SwapIxResult.routePlan r)
          \<and> map (PublicKey rt) (items (field d ''lookUpAccounts''))
              = map Inr (SwapIxResult.lookupAccounts r)
          \<and> Number rt (field d ''amountOut'') = Inr (SwapIxResult.amountOut r)
          \<and> Number rt (field d ''amountOutUi'') = Inr (SwapIxResult.amountOutUi r)"
    if r: "swapIx rt sdk params = Inr r" for r
  proof -
    from swapIx_Inr [OF assms r]
    have gs: "list_all2 (\<lambda>x y. convertInstructionGroup rt x = Inr y)
           (items (field d ''inXs'')) (instructionGroups r)"
      and sg: "SwapIxResult.signers r = field d ''signers''"
      and la: "convertLookupAccounts rt d = Inr (SwapIxResult.lookupAccounts r)"
      and rp: "convertRoutePlan rt d = Inr (SwapIxResult.routePlan r)"
      by blast+
    from gs have l: "length (instructionGroups r) = length (items (field d ''inXs''))"
      by (simp add: list_all2_lengthD)
    from gs have "list_all2 (\<lambda>x y. group_shape y = raw_group_shape x)
           (items (field d ''inXs'')) (instructionGroups r)"
      by (rule list_all2_mono) (rule convertInstructionGroup_shape)
    then have s: "map group_shape (instructionGroups r)
        = map raw_group_shape (items (field d ''inXs''))"
      by (induction rule: list_all2_induct) simp_all
    have n: "map (convertAPIInstruction rt)
                    (items (field (items (field d ''inXs'') ! i) ''instructions''))
                  = map Inr (instructions (instructionGroups r ! i))
              \<and> map (convertAPIInstruction rt)
                    (items (field (items (field d ''inXs'') ! i) ''cleanupInstructions''))
                  = map Inr (cleanupInstructions (instructionGroups r ! i))
              \<and> InstructionGroup.signers (instructionGroups r ! i)
                  = or_empty (number_falsy rt) (field (items (field d ''inXs'') ! i) ''signers'')"
      if "i < length (items (field d ''inXs''))" for i
    proof -
      from gs that have "convertInstructionGroup rt (items (field d ''inXs'') ! i)
          = Inr (instructionGroups r ! i)"
        by (rule list_all2_nthD)
      from convertInstructionGroup_Inr [OF this] show ?thesis
        by (simp add: list_all2_map_Inr)
    qed
    from gs have g: "list_all2 (retyped_group rt) (items (field d ''inXs'')) (instructionGroups r)"
      by (rule list_all2_mono) (rule convertInstructionGroup_retyped)
    from rp have h: "list_all2 (retyped_hop rt) (items (field d ''routePlan''))
        (SwapIxResult.routePlan r)"
      by (rule convertRoutePlan_retyped)
    from la have k: "map (PublicKey rt) (items (field d ''lookUpAccounts''))
        = map Inr (SwapIxResult.lookupAccounts r)"
      by (rule convertLookupAccounts_Inr)
    from swapIx_amounts_Inr [OF assms r] l s sg n g h k show ?thesis by blast
  qed
  have 2: "swapIx rt sdk params =
               Inr \<lparr>instructionGroups = groups, SwapIxResult.amountOut = out,
                    SwapIxResult.amountOutUi = ui, SwapIxResult.routePlan = rps,
                    SwapIxResult.lookupAccounts = las,
                    SwapIxResult.signers = field d ''signers''\<rparr>"
    if "convertLookupAccounts rt d = Inr las" "convertRoutePlan rt d = Inr rps"
       "js_map (convertInstructionGroup rt) (or_empty (number_falsy rt) (field d ''inXs''))
              = Inr groups"
       "Number rt (field d ''amountOut'') = Inr out"
       "Number rt (field d ''amountOutUi'') = Inr ui"
    for las rps groups out ui
  proof -
    from that(1) obtain la where "get_prop d ''lookUpAccounts'' = Inr la"
      unfolding convertLookupAccounts_def by (auto simp: bindE_eq_Inr)
    then have g: "get_prop d k = Inr (field d k)" for k
      by (rule get_prop_other)
    show ?thesis
      unfolding swapIx_def using assms that by (simp add: g)
  qed
  from 1 2 show ?thesis by blast
qed

theorem swapIx_keeps_structure_witness:
  "swapIx (stub_runtime (stub_ok (stub_swap_with ''inXs'' (JArr stub_groups))))
      (new_SwapSDK None) stub_params =
     Inr \<lparr>instructionGroups =
            [\<lparr>instructions =
                [\<lparr>keys = [\<lparr>pubkey = mintA_bytes, isSigner = JBool True,
                            isWritable = JBool True\<rparr>,
                          \<lparr>pubkey = mintB_bytes, isSigner = JBool False,
                            isWritable = JBool False\<rparr>],
                  programId = wsol_bytes, data = [65, 81]\<rparr>],
              cleanupInstructions =
                [\<lparr>keys = [], programId = mintB_bytes, data = [65, 103]\<rparr>],
              InstructionGroup.signers = JArr [JStr secret1_text]\<rparr>,
             \<lparr>instructions = [], cleanupInstructions = [],
              InstructionGroup.signers = JArr []\<rparr>],
          SwapIxResult.amountOut = Some 500000,
          SwapIxResult.amountOutUi = Some (1 / 2),
          SwapIxResult.routePlan =
            [\<lparr>tokenA = mintA_bytes, tokenB = mintB_bytes, dexId = JStr ''INVARIANT''\<rparr>],
          SwapIxResult.lookupAccounts = [wsol_bytes],
          SwapIxResult.signers = JArr [JStr secret1_text, JStr secret2_text]\<rparr>"
proof -
  let ?d = "stub_swap_with ''inXs'' (JArr stub_groups)"
  have f: "field ?d ''inXs'' = JArr stub_groups"
    "field ?d ''amountOut'' = JStr ''500000''" "field ?d ''amountOutUi'' = JStr ''0.5''"
    "field ?d ''signers'' = JArr [JStr secret1_text, JStr secret2_text]"
    by (simp_all add: field_def stub_swap_with_def stub_swap_fields_def)
  have la: "convertLookupAccounts (stub_runtime (stub_ok ?d)) ?d = Inr [wsol_bytes]"
    unfolding stub_swap_with_def
    by (rule convertLookupAccounts_stub) (simp add: stub_swap_fields_def)
  have rp: "convertRoutePlan (stub_runtime (stub_ok ?d)) ?d
      = Inr [\<lparr>tokenA = mintA_bytes, tokenB = mintB_bytes, dexId = JStr ''INVARIANT''\<rparr>]"
    unfolding stub_swap_with_def
    by (rule convertRoutePlan_stub) (simp add: stub_swap_fields_def)
  from swapIx_keeps_structure
      [where rt = "stub_runtime (stub_ok ?d)" and sdk = "new_SwapSDK None"
         and params = stub_params and d = ?d, OF callSwapEndpoint_stub]
  have "\<forall>las rps groups out ui.
          convertLookupAccounts (stub_runtime (stub_ok ?d)) ?d = Inr las
        \<and> convertRoutePlan (stub_runtime (stub_ok ?d)) ?d = Inr rps
        \<and> js_map (convertInstructionGroup (stub_runtime (stub_ok ?d)))
              (or_empty (number_falsy (stub_runtime (stub_ok ?d))) (field ?d ''inXs''))
            = Inr groups
        \<and> Number (stub_runtime (stub_ok ?d)) (field ?d ''amountOut'') = Inr out
        \<and> Number (stub_runtime (stub_ok ?d)) (field ?d ''amountOutUi'') = Inr ui
        \<longrightarrow> swapIx (stub_runtime (stub_ok ?d)) (new_SwapSDK None) stub_params =
             Inr \<lparr>instructionGroups = groups, SwapIxResult.amountOut = out,
                  SwapIxResult.amountOutUi = ui, SwapIxResult.routePlan = rps,
                  SwapIxResult.lookupAccounts = las,
                  SwapIxResult.signers = field ?d ''signers''\<rparr>"
    by (rule conjunct2)
  then show ?thesis
    using la rp
    by (simp add: f convertInstructionGroup_stub Number_stub)
qed

section \<open>Address fields and absent lists\<close>

text \<open>
  C5. In every result of \<open>swapTx\<close>, \<open>swapIx\<close> and \<open>tokenList\<close> the keys are the parsed
  address fields of the answer, one for one and in order: none is dropped. Hence, when
  any address field of the answer (a lookup account, a token of a hop, a program id or
  an account key of an instruction, the address of a token) does not parse, the whole
  call fails.
\<close>

theorem unparsable_address_aborts_call:
  "(callSwapEndpoint rt sdk params = Inr d \<longrightarrow>
       (\<forall>r. swapTx rt sdk params = Inr r \<longrightarrow>
              map (PublicKey rt) (swapTx_addresses d) = map Inr (swapTx_keys r))
     \<and> (\<forall>r. swapIx rt sdk params = Inr r \<longrightarrow>
              map (PublicKey rt) (swapIx_addresses d) = map Inr (swapIx_keys r))
     \<and> (\<forall>a\<in>set (swapTx_addresses d). isl (PublicKey rt a) \<longrightarrow> isl (swapTx rt sdk params))
     \<and> (\<forall>a\<in>set (swapIx_addresses d). isl (PublicKey rt a) \<longrightarrow> isl (swapIx rt sdk params)))
   \<and> (fetch rt \<lparr>url = baseUrl sdk @ ''/tokenList'', http_method = ''GET'',
                  headers = [], body = None\<rparr> = Inr response
        \<and> ok response \<and> json response = Inr d' \<longrightarrow>
       (\<forall>r. tokenList rt sdk = Inr r \<longrightarrow>
              map (PublicKey rt) (tokenList_addresses d') = map Inr (map address r))
     \<and> (\<forall>a\<in>set (tokenList_addresses d'). isl (PublicKey rt a) \<longrightarrow> isl (tokenList rt sdk)))"
proof -
  have tx: "map (PublicKey rt) (swapTx_addresses d) = map Inr (swapTx_keys r)"
    if "callSwapEndpoint rt sdk params = Inr d" "swapTx rt sdk params = Inr r" for r
    using that by (rule swapTx_keys_Inr)
  have ix: "map (PublicKey rt) (swapIx_addresses d) = map Inr (swapIx_keys r)"
    if "callSwapEndpoint rt sdk params = Inr d" "swapIx rt sdk params = Inr r" for r
    using that by (rule swapIx_keys_Inr)
  have tl: "map (PublicKey rt) (tokenList_addresses d') = map Inr (map address r)"
    if "fetch rt \<lparr>url = baseUrl sdk @ ''/tokenList'', http_method = ''GET'',
                  headers = [], body = None\<rparr> = Inr response"
       "ok response" "json response = Inr d'" "tokenList rt sdk = Inr r" for r
    using that by (rule tokenList_keys_Inr)
  have txf: "isl (swapTx rt sdk params)"
    if "callSwapEndpoint rt sdk params = Inr d" "a \<in> set (swapTx_addresses d)"
       "isl (PublicKey rt a)" for a
    using that map_Inr_not_isl [OF tx] by (intro not_Inr_isl) blast
  have ixf: "isl (swapIx rt sdk params)"
    if "callSwapEndpoint rt sdk params = Inr d" "a \<in> set (swapIx_addresses d)"
       "isl (PublicKey rt a)" for a
    using that map_Inr_not_isl [OF ix] by (intro not_Inr_isl) blast
  have tlf: "isl (tokenList rt sdk)"
    if "fetch rt \<lparr>url = baseUrl sdk @ ''/tokenList'', http_method = ''GET'',
                  headers = [], body = None\<rparr> = Inr response"
       "ok response" "json response = Inr d'" "a \<in> set (tokenList_addresses d')"
       "isl (PublicKey rt a)" for a
    using that map_Inr_not_isl [OF tl] by (intro not_Inr_isl) blast
  from tx ix tl txf ixf tlf show ?thesis by blast
qed

theorem unparsable_address_aborts_call_witness:
  "isl (swapTx (stub_runtime (stub_ok (stub_swap_with ''lookUpAccounts''
          (JArr [JStr wsol_text, JStr ''0OIl''])))) (new_SwapSDK None) stub_params)
   \<and> isl (swapIx (stub_runtime (stub_ok (stub_swap_with ''lookUpAccounts''
          (JArr [JStr wsol_text, JStr ''0OIl''])))) (new_SwapSDK None) stub_params)
   \<and> isl (tokenList (stub_runtime (stub_ok (JArr [JObj [(''name'', JStr ''Zero''),
          (''address'', JStr ''0OIl'')]]))) (new_SwapSDK None))"
proof -
  let ?d = "stub_swap_with ''lookUpAccounts'' (JArr [JStr wsol_text, JStr ''0OIl''])"
  let ?d' = "JArr [JObj [(''name'', JStr ''Zero''), (''address'', JStr ''0OIl'')]]
    :: rat option json"
  have a: "JStr ''0OIl'' \<in> set (swapTx_addresses ?d)" "JStr ''0OIl'' \<in> set (swapIx_addresses ?d)"
    by (simp_all add: swapIx_addresses_def swapTx_addresses_def field_def stub_swap_with_def)
  have a': "JStr ''0OIl'' \<in> set (tokenList_addresses ?d')"
    by (simp add: tokenList_addresses_def field_def)
  have f: "fetch (stub_runtime (stub_ok ?d')) req = Inr (stub_ok ?d')" for req
    by (simp add: stub_runtime_def)
  have o: "ok (stub_ok ?d')" "json (stub_ok ?d') = Inr ?d'"
    by (simp_all add: stub_ok_def)
  from unparsable_address_aborts_call
    [where rt = "stub_runtime (stub_ok ?d)" and sdk = "new_SwapSDK None"
       and params = stub_params and d = ?d]
  have "isl (swapTx (stub_runtime (stub_ok ?d)) (new_SwapSDK None) stub_params)"
    "isl (swapIx (stub_runtime (stub_ok ?d)) (new_SwapSDK None) stub_params)"
    using a PublicKey_stub_bad callSwapEndpoint_stub by blast+
  moreover from unparsable_address_aborts_call
    [where rt = "stub_runtime (stub_ok ?d')" and sdk = "new_SwapSDK None"
       and response = "stub_ok ?d'" and d' = ?d']
  have "isl (tokenList (stub_runtime (stub_ok ?d')) (new_SwapSDK None))"
    using a' PublicKey_stub_bad f o by blast
  ultimately show ?thesis by blast
qed



section \<open>Token list and token price\<close>

text \<open>
  C7. On a successful answer that is an array of \<open>M\<close> descriptors, every result of
  \<open>tokenList\<close> has \<open>M\<close> entries; the \<open>i\<close>-th has the key parsed from the \<open>i\<close>-th address and
  the other five fields as they came; and where the address is a string that is a
  standard encoding, printing the parsed key gives the string back. The call returns
  whenever every address parses.
\<close>

theorem tokenList_converts_every_token:
  assumes "fetch rt \<lparr>url = baseUrl sdk @ ''/tokenList'', http_method = ''GET'',
                      headers = [], body = None\<rparr> = Inr response"
      and "ok response"
      and "json response = Inr (JArr ts)"
  shows "(\<forall>r. tokenList rt sdk = Inr r \<longrightarrow>
            length r = length ts
          \<and> (\<forall>i<length ts.
                PublicKey rt (field (ts ! i) ''address'') = Inr (address (r ! i))
              \<and> name (r ! i) = field (ts ! i) ''name''
              \<and> symbol (r ! i) = field (ts ! i) ''symbol''
              \<and> chainId (r ! i) = field (ts ! i) ''chainId''
              \<and> decimals (r ! i) = field (ts ! i) ''decimals''
              \<and> logoURL (r ! i) = field (ts ! i) ''logoURL''
              \<and> (\<forall>s. field (ts ! i) ''address'' = JStr s \<and> standard_encoding rt s
                    \<longrightarrow> toBase58 rt (address (r ! i)) = s)))
       \<and> ((\<forall>t\<in>set ts. \<exists>a pk. get_prop t ''address'' = Inr a \<and> PublicKey rt a = Inr pk)
            \<longrightarrow> (\<exists>r. tokenList rt sdk = Inr r))"
proof -
  have tl: "tokenList rt sdk = mapE (convertToken rt) ts"
    unfolding tokenList_def using assms by (simp add: js_map_def)
  have 1: "length r = length ts
          \<and> (\<forall>i<length ts.
                PublicKey rt (field (ts ! i) ''address'') = Inr (address (r ! i))
              \<and> name (r ! i) = field (ts ! i) ''name''
              \<and> symbol (r ! i) = field (ts ! i) ''symbol''
              \<and> chainId (r ! i) = field (ts ! i) ''chainId''
              \<and> decimals (r ! i) = field (ts ! i) ''decimals''
              \<and> logoURL (r ! i) = field (ts ! i) ''logoURL''
              \<and> (\<forall>s. field (ts ! i) ''address'' = JStr s \<and> standard_encoding rt s
                    \<longrightarrow> toBase58 rt (address (r ! i)) = s))"
    if r: "tokenList rt sdk = Inr r" for r
  proof -
    from r have m: "mapE (convertToken rt) ts = Inr r" by (simp add: tl)
    then have l: "length r = length ts" by (rule mapE_length)
    have "PublicKey rt (field (ts ! i) ''address'') = Inr (address (r ! i))
              \<and> name (r ! i) = field (ts ! i) ''name''
              \<and> symbol (r ! i) = field (ts ! i) ''symbol''
              \<and> chainId (r ! i) = field (ts ! i) ''chainId''
              \<and> decimals (r ! i) = field (ts ! i) ''decimals''
              \<and> logoURL (r ! i) = field (ts ! i) ''logoURL''
              \<and> (\<forall>s. field (ts ! i) ''address'' = JStr s \<and> standard_encoding rt s
                    \<longrightarrow> toBase58 rt (address (r ! i)) = s)" if i: "i < length ts" for i
    proof -
      from m i have "convertToken rt (ts ! i) = Inr (r ! i)" by (rule mapE_nth)
      then have c: "PublicKey rt (field (ts ! i) ''address'') = Inr (address (r ! i))
          \<and> name (r ! i) = field (ts ! i) ''name'' \<and> symbol (r ! i) = field (ts ! i) ''symbol''
          \<and> chainId (r ! i) = field (ts ! i) ''chainId''
          \<and> decimals (r ! i) = field (ts ! i) ''decimals''
          \<and> logoURL (r ! i) = field (ts ! i) ''logoURL''"
        by (rule convertToken_Inr)
      then have "toBase58 rt (address (r ! i)) = s"
        if "field (ts ! i) ''address'' = JStr s" "standard_encoding rt s" for s
        using that by (simp add: standard_encoding_def)
      with c show ?thesis by blast
    qed
    with l show ?thesis by blast
  qed
  have 2: "\<exists>r. tokenList rt sdk = Inr r"
    if "\<forall>t\<in>set ts. \<exists>a pk. get_prop t ''address'' = Inr a \<and> PublicKey rt a = Inr pk"
    unfolding tl using that by (intro mapE_total) (blast intro: convertToken_total)
  from 1 2 show ?thesis by blast
qed

theorem tokenList_converts_every_token_witness:
  "\<exists>r. tokenList (stub_runtime (stub_ok stub_tokens)) (new_SwapSDK None) = Inr r
      \<and> length r = 2
      \<and> address (r ! 0) = wsol_bytes
      \<and> toBase58 (stub_runtime (stub_ok stub_tokens)) (address (r ! 0)) = wsol_text
      \<and> name (r ! 0) = JStr ''Wrapped SOL''
      \<and> decimals (r ! 1) = JNum (Some 6)"
proof -
  note t = tokenList_converts_every_token
    [where rt = "stub_runtime (stub_ok stub_tokens)" and sdk = "new_SwapSDK None"
       and response = "stub_ok stub_tokens" and ts = "items stub_tokens"]
  have f: "fetch (stub_runtime (stub_ok stub_tokens)) req = Inr (stub_ok stub_tokens)" for req
    by (simp add: stub_runtime_def)
  have o: "ok (stub_ok stub_tokens)" "json (stub_ok stub_tokens) = Inr (JArr (items stub_tokens))"
    by (simp_all add: stub_ok_def stub_tokens_def)
  note t' = t [OF f o]
  have "\<forall>t\<in>set (items stub_tokens). \<exists>a pk. get_prop t ''address'' = Inr a
      \<and> PublicKey (stub_runtime (stub_ok stub_tokens)) a = Inr pk"
    by (simp add: stub_tokens_def PublicKey_stub)
  with t' obtain r where r: "tokenList (stub_runtime (stub_ok stub_tokens)) (new_SwapSDK None) = Inr r"
    by blast
  with t' have l: "length r = length (items stub_tokens)"
    and a: "\<And>i. i < length (items stub_tokens) \<Longrightarrow>
        PublicKey (stub_runtime (stub_ok stub_tokens)) (field (items stub_tokens ! i) ''address'')
          = Inr (address (r ! i))
      \<and> name (r ! i) = field (items stub_tokens ! i) ''name''
      \<and> decimals (r ! i) = field (items stub_tokens ! i) ''decimals''
      \<and> (\<forall>s. field (items stub_tokens ! i) ''address'' = JStr s
             \<and> standard_encoding (stub_runtime (stub_ok stub_tokens)) s
            \<longrightarrow> toBase58 (stub_runtime (stub_ok stub_tokens)) (address (r ! i)) = s)"
    by blast+
  have i: "0 < length (items stub_tokens)" "1 < length (items stub_tokens)"
    by (simp_all add: stub_tokens_def)
  have f: "field (items stub_tokens ! 0) ''address'' = JStr wsol_text"
    "field (items stub_tokens ! 0) ''name'' = JStr ''Wrapped SOL''"
    "field (items stub_tokens ! 1) ''decimals'' = JNum (Some 6)"
    by (simp_all add: stub_tokens_def field_def)
  from l have "length r = 2" by (simp add: stub_tokens_def)
  moreover from a [OF i(1)] f
  have "PublicKey (stub_runtime (stub_ok stub_tokens)) (JStr wsol_text) = Inr (address (r ! 0))"
    by simp
  then have "address (r ! 0) = wsol_bytes" by (simp add: PublicKey_stub)
  moreover from a [OF i(1)] f standard_encoding_stub(1)
  have "toBase58 (stub_runtime (stub_ok stub_tokens)) (address (r ! 0)) = wsol_text"
    by blast
  moreover from a [OF i(1)] f have "name (r ! 0) = JStr ''Wrapped SOL''" by simp
  moreover from a [OF i(2)] f have "decimals (r ! 1) = JNum (Some 6)" by simp
  ultimately show ?thesis using r by blast
qed

text \<open>
  C9. On a successful answer whose body has the field \<open>price\<close>, \<open>tokenPrice\<close> is
  \<open>Number(data.price)\<close>: the field coerced by the language's own conversion. For the body
  \<open>{ "price": "1.2345" }\<close> that is \<open>Number("1.2345")\<close>. The conversion to a double belongs to
  the runtime; with the decimal reader of the test double the value is 1.2345.
\<close>

theorem tokenPrice_is_Number_of_price:
  assumes "fetch rt \<lparr>url = baseUrl sdk @ ''/tokenPrice/'' @ toBase58 rt tokenAddress,
                      http_method = ''GET'', headers = [], body = None\<rparr> = Inr response"
      and "ok response"
      and "json response = Inr data'"
      and "get_prop data' ''price'' = Inr p"
  shows "tokenPrice rt sdk tokenAddress = Number rt p
       \<and> (data' = JObj [(''price'', JStr ''1.2345'')]
            \<longrightarrow> tokenPrice rt sdk tokenAddress = Number rt (JStr ''1.2345''))"
proof -
  have "tokenPrice rt sdk tokenAddress = Number rt p"
    unfolding tokenPrice_def using assms by simp
  moreover have "data' = JObj [(''price'', JStr ''1.2345'')] \<Longrightarrow> p = JStr ''1.2345''"
    using assms(4) by simp
  ultimately show ?thesis by simp
qed

theorem tokenPrice_is_Number_of_price_witness:
  "tokenPrice (stub_runtime (stub_ok (JObj [(''price'', JStr ''1.2345'')]))) (new_SwapSDK None)
     wsol_bytes = Inr (Some (12345 / 10000))"
  using tokenPrice_is_Number_of_price
    [where rt = "stub_runtime (stub_ok (JObj [(''price'', JStr ''1.2345'')]))"
       and sdk = "new_SwapSDK None" and tokenAddress = wsol_bytes
       and response = "stub_ok (JObj [(''price'', JStr ''1.2345'')])"
       and data' = "JObj [(''price'', JStr ''1.2345'')]" and p = "JStr ''1.2345''"]
  by (simp add: stub_runtime_def stub_ok_def parse_decimal_examples)

section \<open>Failure statuses\<close>

text \<open>
  C3. Whatever the server answers with a status that is not a success, each of \<open>swapTx\<close>,
  \<open>swapIx\<close>, \<open>tokenList\<close> and \<open>tokenPrice\<close> fails at once with the error whose message is
  \<open>API Error: \<close> followed by the status text. The answer's body does not enter the
  result: the statement holds for every outcome of \<open>json()\<close>, also for a body that does
  not parse.
\<close>

theorem api_error_on_failure_status:
  assumes "\<And>req. \<exists>response. fetch rt req = Inr response \<and> \<not> ok response
             \<and> statusText response = st"
  shows "swapTx rt sdk params = Inl (Error (''API Error: '' @ st))
       \<and> swapIx rt sdk params = Inl (Error (''API Error: '' @ st))
       \<and> tokenList rt sdk = Inl (Error (''API Error: '' @ st))
       \<and> tokenPrice rt sdk tokenAddress = Inl (Error (''API Error: '' @ st))"
proof -
  have f: "bindE (fetch rt req)
             (\<lambda>response. if \<not> ok response then Inl (api_error response) else k response)
           = Inl (Error (''API Error: '' @ st))" for req and k :: "'a response \<Rightarrow> error + 'e"
  proof -
    from assms obtain response where "fetch rt req = Inr response" "\<not> ok response"
      "statusText response = st" by blast
    then show ?thesis by (simp add: api_error_def)
  qed
  have c: "callSwapEndpoint rt sdk params = Inl (Error (''API Error: '' @ st))"
    unfolding callSwapEndpoint_def Let_def by (rule f)
  have "swapTx rt sdk params = Inl (Error (''API Error: '' @ st))"
    unfolding swapTx_def by (simp add: c)
  moreover have "swapIx rt sdk params = Inl (Error (''API Error: '' @ st))"
    unfolding swapIx_def by (simp add: c)
  moreover have "tokenList rt sdk = Inl (Error (''API Error: '' @ st))"
    unfolding tokenList_def by (rule f)
  moreover have "tokenPrice rt sdk tokenAddress = Inl (Error (''API Error: '' @ st))"
    unfolding tokenPrice_def by (rule f)
  ultimately show ?thesis by blast
qed

theorem api_error_on_failure_status_witness:
  "swapTx (stub_runtime \<lparr>ok = False, statusText = ''Not Found'', json = Inl SyntaxError\<rparr>)
      (new_SwapSDK None) stub_params = Inl (Error ''API Error: Not Found'')
   \<and> swapIx (stub_runtime \<lparr>ok = False, statusText = ''Not Found'', json = Inl SyntaxError\<rparr>)
      (new_SwapSDK None) stub_params = Inl (Error ''API Error: Not Found'')
   \<and> tokenList (stub_runtime \<lparr>ok = False, statusText = ''Not Found'', json = Inl SyntaxError\<rparr>)
      (new_SwapSDK None) = Inl (Error ''API Error: Not Found'')
   \<and> tokenPrice (stub_runtime \<lparr>ok = False, statusText = ''Not Found'', json = Inl SyntaxError\<rparr>)
      (new_SwapSDK None) (replicate 32 1) = Inl (Error ''API Error: Not Found'')"
  using api_error_on_failure_status
    [of "stub_runtime \<lparr>ok = False, statusText = ''Not Found'', json = Inl SyntaxError\<rparr>"
        "''Not Found''" "new_SwapSDK None" stub_params "replicate 32 1"]
  by (simp add: stub_runtime_def)

section \<open>The simulation\<close>

text \<open>
  C4. Let the node answer with an outcome \<open>v\<close> whose \<open>err\<close> field is \<open>e\<close>. Then
  \<open>simulateTransaction\<close> raises \<open>TooManyAccountsLockError\<close> exactly when \<open>e\<close> is present
  (truthy, as the source tests it) and its string form contains \<open>TooManyAccountLocks\<close>;
  with no error (\<open>e\<close> falsy) the outcome \<open>v\<close> is returned as it is, and so it is when the
  string form of \<open>e\<close> does not contain the marker.
\<close>

theorem simulateTransaction_error_translation:
  assumes "connection tx \<lparr>commitment = ''confirmed''\<rparr> = Inr res"
      and "get_prop res ''value'' = Inr v"
      and "get_prop v ''err'' = Inr e"
  shows "((\<exists>m. simulateTransaction rt connection tx = Inl (TooManyAccountsLockError m))
            = (\<not> falsy (number_falsy rt) e
               \<and> (\<exists>s. js_toString (number_toString rt) e = Inr s
                      \<and> str_includes s ''TooManyAccountLocks'')))
       \<and> (falsy (number_falsy rt) e \<longrightarrow> simulateTransaction rt connection tx = Inr v)
       \<and> (\<forall>s. js_toString (number_toString rt) e = Inr s
                \<and> \<not> str_includes s ''TooManyAccountLocks''
              \<longrightarrow> simulateTransaction rt connection tx = Inr v)"
proof -
  have js: "js_toString ns x = Inl err \<Longrightarrow> err = TypeError" for ns :: "'a \<Rightarrow> string" and x err
    by (cases x) (auto simp: Let_def split: if_splits)
  have sim: "simulateTransaction rt connection tx =
      bindE (if falsy (number_falsy rt) e then Inr ()
             else handleSimulationError (number_toString rt) e) (\<lambda>_. Inr v)"
    unfolding simulateTransaction_def Let_def using assms by simp
  show ?thesis
  proof (cases "falsy (number_falsy rt) e")
    case True
    then show ?thesis by (simp add: sim)
  next
    case False
    show ?thesis
    proof (cases "js_toString (number_toString rt) e")
      case (Inl err)
      then have "err = TypeError" by (rule js)
      with Inl False show ?thesis by (simp add: sim handleSimulationError_def)
    next
      case (Inr s)
      with False show ?thesis by (simp add: sim handleSimulationError_def)
    qed
  qed
qed

theorem simulateTransaction_error_translation_witness:
  "(\<exists>m. simulateTransaction (stub_runtime (stub_ok JNull))
          (stub_connection (JStr ''TooManyAccountLocks'')) \<lparr>message = [], signed_by = []\<rparr>
        = Inl (TooManyAccountsLockError m))
   \<and> simulateTransaction (stub_runtime (stub_ok JNull))
          (stub_connection (JObj [(''InstructionError'', JArr [JNum (Some 0), JStr ''Custom''])]))
          \<lparr>message = [], signed_by = []\<rparr>
        = Inr (JObj [(''err'', JObj [(''InstructionError'', JArr [JNum (Some 0), JStr ''Custom''])]),
                     (''logs'', JArr [])])
   \<and> simulateTransaction (stub_runtime (stub_ok JNull))
          (stub_connection JNull) \<lparr>message = [], signed_by = []\<rparr>
        = Inr (JObj [(''err'', JNull), (''logs'', JArr [])])"
proof -
  have 1: "\<exists>m. simulateTransaction (stub_runtime (stub_ok JNull))
          (stub_connection (JStr ''TooManyAccountLocks'')) \<lparr>message = [], signed_by = []\<rparr>
        = Inl (TooManyAccountsLockError m)"
    using simulateTransaction_error_translation
      [where rt = "stub_runtime (stub_ok JNull)" and tx = "\<lparr>message = [], signed_by = []\<rparr>"
         and connection = "stub_connection (JStr ''TooManyAccountLocks'')"
         and res = "JObj [(''context'', JObj [(''slot'', JNum (Some 1))]),
              (''value'', JObj [(''err'', JStr ''TooManyAccountLocks''), (''logs'', JArr [])])]"
         and v = "JObj [(''err'', JStr ''TooManyAccountLocks''), (''logs'', JArr [])]"
         and e = "JStr ''TooManyAccountLocks''"]
    by (simp add: stub_runtime_def stub_connection_def)
  have 2: "simulateTransaction (stub_runtime (stub_ok JNull))
          (stub_connection (JObj [(''InstructionError'', JArr [JNum (Some 0), JStr ''Custom''])]))
          \<lparr>message = [], signed_by = []\<rparr>
        = Inr (JObj [(''err'', JObj [(''InstructionError'', JArr [JNum (Some 0), JStr ''Custom''])]),
                     (''logs'', JArr [])])"
    using simulateTransaction_error_translation
      [where rt = "stub_runtime (stub_ok JNull)" and tx = "\<lparr>message = [], signed_by = []\<rparr>"
         and connection =
           "stub_connection (JObj [(''InstructionError'', JArr [JNum (Some 0), JStr ''Custom''])])"
         and res = "JObj [(''context'', JObj [(''slot'', JNum (Some 1))]),
              (''value'', JObj [(''err'',
                 JObj [(''InstructionError'', JArr [JNum (Some 0), JStr ''Custom''])]),
                 (''logs'', JArr [])])]"
         and v = "JObj [(''err'', JObj [(''InstructionError'', JArr [JNum (Some 0), JStr ''Custom''])]),
                 (''logs'', JArr [])]"
         and e = "JObj [(''InstructionError'', JArr [JNum (Some 0), JStr ''Custom''])]"]
    by (simp add: stub_runtime_def stub_connection_def)
  have 3: "simulateTransaction (stub_runtime (stub_ok JNull))
          (stub_connection JNull) \<lparr>message = [], signed_by = []\<rparr>
        = Inr (JObj [(''err'', JNull), (''logs'', JArr [])])"
    using simulateTransaction_error_translation
      [where rt = "stub_runtime (stub_ok JNull)" and tx = "\<lparr>message = [], signed_by = []\<rparr>"
         and connection = "stub_connection JNull"
         and res = "JObj [(''context'', JObj [(''slot'', JNum (Some 1))]),
              (''value'', JObj [(''err'', JNull), (''logs'', JArr [])])]"
         and v = "JObj [(''err'', JNull), (''logs'', JArr [])]"
         and e = JNull]
    by (simp add: stub_runtime_def stub_connection_def)
  from 1 2 3 show ?thesis by blast
qed

end
